theory Spec2Isabelle
  imports Main "HOL-Library.AList" "HOL-Library.Sublist"
begin

section \<open>The ALT OVAL vulnerability source (pkg/vulnsrc/alt)\<close>

text \<open>
  A shallow embedding of \<^verbatim>\<open>pkg/vulnsrc/alt/alt.go\<close> and of the OVAL
  reference resolver that sits beside it. Go strings are byte sequences and are modelled
  as \<^typ>\<open>string\<close>; a nil slice and an empty slice are both the empty list, which is
  how every consumer in this package treats them (\<^verbatim>\<open>len\<close>, \<^verbatim>\<open>range\<close>,
  \<^verbatim>\<open>append\<close>, \<^verbatim>\<open>slices.Equal\<close>).
\<close>

subsection \<open>The functions of package strings that the code calls\<close>

text \<open>\<^verbatim>\<open>strings.HasPrefix(s, prefix)\<close>\<close>

fun HasPrefix :: "string \<Rightarrow> string \<Rightarrow> bool" where
  "HasPrefix s [] = True"
| "HasPrefix [] (p # ps) = False"
| "HasPrefix (c # cs) (p # ps) = (c = p \<and> HasPrefix cs ps)"

text \<open>\<^verbatim>\<open>strings.Contains(s, substr)\<close>: some suffix of \<open>s\<close> starts with \<open>substr\<close>.\<close>

fun Contains :: "string \<Rightarrow> string \<Rightarrow> bool" where
  "Contains [] substr = (substr = [])"
| "Contains (c # cs) substr = (HasPrefix (c # cs) substr \<or> Contains cs substr)"

text \<open>
  \<^verbatim>\<open>strings.Split(s, sep)\<close> for a separator of one byte: the fields between the
  separators, in order; a string without the separator is its own only field.
\<close>

fun Split :: "string \<Rightarrow> char \<Rightarrow> string list" where
  "Split [] sep = [[]]"
| "Split (c # cs) sep =
     (if c = sep then [] # Split cs sep
      else (case Split cs sep of
              [] \<Rightarrow> [[c]]
            | w # ws \<Rightarrow> (c # w) # ws))"

text \<open>The lower-case form of an ASCII byte.\<close>

definition lower_char :: "char \<Rightarrow> char" where
  "lower_char c =
     (let n = (of_char c :: nat) in if 65 \<le> n \<and> n \<le> 90 then char_of (n + 32) else c)"

text \<open>
  \<^verbatim>\<open>strings.ToLower(s) == w\<close> for a word \<open>w\<close> of lower-case ASCII letters,
  which is all the code asks of \<^verbatim>\<open>strings.ToLower\<close>. The function lowers the
  string rune by rune, so its result is \<open>w\<close> when \<open>s\<close> is, rune for letter, a
  spelling of \<open>w\<close>: an ASCII byte that is the letter or its capital, or one of the
  two runes outside ASCII that lower to an ASCII letter, U+0130 (bytes C4 B0, lowers to
  \<^verbatim>\<open>i\<close>) and U+212A (bytes E2 84 AA, lowers to \<^verbatim>\<open>k\<close>). Every other
  rune, and every byte that is not valid UTF-8, gives a rune outside ASCII.
\<close>

fun ToLower_is :: "string \<Rightarrow> string \<Rightarrow> bool" where
  "ToLower_is [] [] = True"
| "ToLower_is [] (w # ws) = False"
| "ToLower_is (c # cs) [] = False"
| "ToLower_is (c # cs) (w # ws) =
     ((of_char c < (128::nat) \<and> lower_char c = w \<and> ToLower_is cs ws)
      \<or> (w = CHR ''i'' \<and> c = CHR 0xC4 \<and>
           (case cs of [] \<Rightarrow> False | b # rest \<Rightarrow> b = CHR 0xB0 \<and> ToLower_is rest ws))
      \<or> (w = CHR ''k'' \<and> c = CHR 0xE2 \<and>
           (case cs of
              b # b' # rest \<Rightarrow> b = CHR 0x84 \<and> b' = CHR 0xAA \<and> ToLower_is rest ws
            | _ \<Rightarrow> False)))"

subsection \<open>The data model\<close>

datatype Severity =
  SeverityUnknown | SeverityLow | SeverityMedium | SeverityHigh | SeverityCritical

record Reference =
  RefID :: string
  RefURL :: string
  Source :: string

record BDU =
  bdu_ID :: string
  bdu_Impact :: string
  bdu_Href :: string

record CVE =
  cve_ID :: string
  cve_Impact :: string

text \<open>
  \<^verbatim>\<open>Metadata.Advisory\<close>; the field \<open>adv_AffectedCPEs\<close> holds
  \<^verbatim>\<open>Advisory.AffectedCPEs.CPEs\<close>.
\<close>

record Advisory =
  adv_Severity :: string
  adv_BDUs :: "BDU list"
  adv_CVEs :: "CVE list"
  adv_AffectedCPEs :: "string list"

record Metadata =
  Title :: string
  Description :: string
  References :: "Reference list"
  Advisory :: Advisory

record CVEEntry =
  ID :: string
  Severity :: Severity

record VendorCVE =
  vc_CVE :: CVEEntry
  vc_Title :: string
  vc_Description :: string
  vc_References :: "string list"

subsection \<open>Identifiers and severities of a definition\<close>

definition severityFromImpact :: "string \<Rightarrow> Severity" where
  "severityFromImpact sev =
     (if ToLower_is sev ''low'' then SeverityLow
      else if ToLower_is sev ''medium'' then SeverityMedium
      else if ToLower_is sev ''high'' then SeverityHigh
      else if ToLower_is sev ''critical'' then SeverityCritical
      else SeverityUnknown)"

text \<open>
  \<^verbatim>\<open>vendorID\<close>: the loop returns from inside its body at the first reference
  whose source is \<^verbatim>\<open>"ALTPU"\<close>.
\<close>

fun vendorID :: "Reference list \<Rightarrow> string" where
  "vendorID [] = ''''"
| "vendorID (ref # refs) = (if Source ref = ''ALTPU'' then RefID ref else vendorID refs)"

text \<open>
  \<^verbatim>\<open>vendorCVE\<close>: the loop runs over every reference and overwrites its variable \<^verbatim>\<open>id\<close> (here \<open>ident\<close>) at
  each one whose \<open>RefID\<close> contains \<^verbatim>\<open>"ALT"\<close>.
\<close>

fun vendorCVE_loop :: "Reference list \<Rightarrow> string \<Rightarrow> string" where
  "vendorCVE_loop [] ident = ident"
| "vendorCVE_loop (r # rs) ident =
     vendorCVE_loop rs (if Contains (RefID r) ''ALT'' then RefID r else ident)"

definition vendorCVE :: "Metadata \<Rightarrow> CVEEntry" where
  "vendorCVE metadata =
     \<lparr>ID = vendorCVE_loop (References metadata) '''',
      Severity = severityFromImpact (adv_Severity (Advisory metadata))\<rparr>"

definition toReferences :: "Reference list \<Rightarrow> string list" where
  "toReferences references = fold (\<lambda>r data. data @ [RefURL r]) references []"

subsection \<open>Errors\<close>

text \<open>
  The errors the package builds with \<^verbatim>\<open>xerrors.Errorf\<close>. The two reference
  errors carry the two values their messages are formatted from: the reference that was
  not found and the identifier of the test that holds it. \<open>Wrapped msg e\<close> is an
  error that wraps \<open>e\<close> (\<^verbatim>\<open>%w\<close>) under the message \<open>msg\<close>;
  \<open>Formatted msg e\<close> is a new error whose message is \<open>msg\<close> followed by the
  text of \<open>e\<close> (\<^verbatim>\<open>%s\<close>), which does not wrap \<open>e\<close>;
  \<open>ExternalError\<close> is an error of a collaborator (file system, JSON decoder, store).
\<close>

datatype error =
  ExternalError string
| ObjectRefNotFound string string
| StateRefNotFound string string
| Wrapped string error
| Formatted string error

subsection \<open>Resolving the references of a test\<close>

record RPMInfoObject =
  obj_ID :: string
  obj_Name :: string

text \<open>The shape of \<^verbatim>\<open>RPMInfoState.Arch\<close> and \<^verbatim>\<open>RPMInfoState.EVR\<close>.\<close>

record Matcher =
  Datatype :: string
  Operation :: string
  Text :: string

record RPMInfoState =
  state_ID :: string
  state_Arch :: Matcher
  state_EVR :: Matcher

text \<open>
  \<open>ObjectRef\<close> is \<^verbatim>\<open>test.Object.ObjectRef\<close> and \<open>StateRef\<close> is
  \<^verbatim>\<open>test.State.StateRef\<close>.
\<close>

record RPMInfoTest =
  test_ID :: string
  ObjectRef :: string
  StateRef :: string

record resolvedTest =
  rt_Name :: string
  rt_FixedVersion :: string
  rt_Arch :: string

text \<open>The zero value of \<^verbatim>\<open>resolvedTest\<close> (\<^verbatim>\<open>var t resolvedTest\<close>).\<close>

definition zero_resolvedTest :: resolvedTest where
  "zero_resolvedTest = \<lparr>rt_Name = '''', rt_FixedVersion = '''', rt_Arch = ''''\<rparr>"

text \<open>
  \<^verbatim>\<open>followTestRefs\<close> returns the pair \<^verbatim>\<open>(t, err)\<close> as Go does: the
  second component is \<open>None\<close> for a nil error. On a missing state the returned
  \<open>t\<close> already holds the object's name.
\<close>

definition followTestRefs ::
  "RPMInfoTest \<Rightarrow> (string \<rightharpoonup> RPMInfoObject) \<Rightarrow> (string \<rightharpoonup> RPMInfoState)
     \<Rightarrow> resolvedTest \<times> error option" where
  "followTestRefs test objects states =
     (let t = zero_resolvedTest in
      if ObjectRef test = '''' then (t, None)
      else case objects (ObjectRef test) of
        None \<Rightarrow> (t, Some (ObjectRefNotFound (ObjectRef test) (test_ID test)))
      | Some obj \<Rightarrow>
          (let t = t\<lparr>rt_Name := obj_Name obj\<rparr> in
           if StateRef test = '''' then (t, None)
           else case states (StateRef test) of
             None \<Rightarrow> (t, Some (StateRefNotFound (StateRef test) (test_ID test)))
           | Some state \<Rightarrow>
               (let t = (if Datatype (state_Arch state) = ''string''
                            \<and> (Operation (state_Arch state) = ''pattern match''
                                 \<or> Operation (state_Arch state) = ''equals'')
                         then t\<lparr>rt_Arch := Text (state_Arch state)\<rparr> else t);
                    t = (if Datatype (state_EVR state) = ''evr_string''
                            \<and> Operation (state_EVR state) = ''less than''
                         then t\<lparr>rt_FixedVersion := Text (state_EVR state)\<rparr> else t)
                in (t, None))))"

text \<open>
  One directory of the feed: what \<^verbatim>\<open>unmarshalJSONFile\<close> gives for each of its
  four files, an error (the file cannot be opened or decoded) or the decoded list.
\<close>

record 'd ovalDir =
  objects_json :: "error + RPMInfoObject list"
  states_json :: "error + RPMInfoState list"
  tests_json :: "error + RPMInfoTest list"
  definitions_json :: "error + 'd list"

definition parseObjects :: "'d ovalDir \<Rightarrow> error + (string \<rightharpoonup> RPMInfoObject)" where
  "parseObjects dir =
     (case objects_json dir of
        Inl err \<Rightarrow> Inl (Wrapped ''failed to unmarshal objects'' err)
      | Inr objects \<Rightarrow> Inr (fold (\<lambda>obj objs. objs(obj_ID obj \<mapsto> obj)) objects Map.empty))"

definition parseStates :: "'d ovalDir \<Rightarrow> error + (string \<rightharpoonup> RPMInfoState)" where
  "parseStates dir =
     (case states_json dir of
        Inl err \<Rightarrow> Inl (Wrapped ''failed to unmarshal states'' err)
      | Inr ss \<Rightarrow> Inr (fold (\<lambda>state states. states(state_ID state \<mapsto> state)) ss Map.empty))"

definition parseTests :: "'d ovalDir \<Rightarrow> error + RPMInfoTest list" where
  "parseTests dir =
     (case tests_json dir of
        Inl err \<Rightarrow> Inl (Wrapped ''failed to unmarshal tests'' err)
      | Inr tests \<Rightarrow> Inr tests)"

definition parseDefinitions :: "'d ovalDir \<Rightarrow> error + 'd list" where
  "parseDefinitions dir =
     (case definitions_json dir of
        Inl err \<Rightarrow> Inl (Wrapped ''failed to parse definitions'' err)
      | Inr definitions \<Rightarrow> Inr definitions)"

text \<open>
  The loop of \<^verbatim>\<open>resolveTests\<close>: the first test that does not resolve ends it
  with the error alone, and the map built so far is dropped.
\<close>

fun resolveTests_loop ::
  "RPMInfoTest list \<Rightarrow> (string \<rightharpoonup> RPMInfoObject) \<Rightarrow> (string \<rightharpoonup> RPMInfoState)
     \<Rightarrow> (string \<rightharpoonup> resolvedTest) \<Rightarrow> error + (string \<rightharpoonup> resolvedTest)" where
  "resolveTests_loop [] objects states rpmTests = Inr rpmTests"
| "resolveTests_loop (test # tests) objects states rpmTests =
     (case followTestRefs test objects states of
        (t, Some err) \<Rightarrow> Inl err
      | (t, None) \<Rightarrow> resolveTests_loop tests objects states (rpmTests(test_ID test \<mapsto> t)))"

definition resolveTests :: "'d ovalDir \<Rightarrow> error + (string \<rightharpoonup> resolvedTest)" where
  "resolveTests dir =
     (case parseObjects dir of
        Inl err \<Rightarrow> Inl err
      | Inr objects \<Rightarrow>
          (case parseStates dir of
             Inl err \<Rightarrow> Inl err
           | Inr states \<Rightarrow>
               (case parseTests dir of
                  Inl err \<Rightarrow> Inl err
                | Inr tests \<Rightarrow> resolveTests_loop tests objects states Map.empty)))"

subsection \<open>Walking the criteria tree\<close>

record Criterion =
  TestRef :: string

datatype Criteria = Criteria (Criterions: "Criterion list") (Criterias: "Criteria list")

record pkg =
  pkg_Name :: string
  pkg_FixedVersion :: string
  pkg_Arches :: "string list"

text \<open>The package a resolved test stands for: the body of the first loop.\<close>

definition pkg_of :: "resolvedTest \<Rightarrow> pkg" where
  "pkg_of t =
     (let arches = (if rt_Arch t \<noteq> '''' then Split (rt_Arch t) CHR ''|'' else [])
      in \<lparr>pkg_Name = rt_Name t, pkg_FixedVersion = rt_FixedVersion t, pkg_Arches = arches\<rparr>)"

fun walkCriterion :: "Criteria \<Rightarrow> (string \<rightharpoonup> resolvedTest) \<Rightarrow> pkg list" where
  "walkCriterion (Criteria criterions criterias) tests =
     (let packages =
            fold (\<lambda>c packages.
                    case tests (TestRef c) of
                      None \<Rightarrow> packages
                    | Some t \<Rightarrow> packages @ [pkg_of t])
                 criterions []
      in if length criterias = 0 then packages
         else fold (\<lambda>c packages.
                      let pkgs = walkCriterion c tests
                      in if length pkgs \<noteq> 0 then packages @ pkgs else packages)
                   criterias packages)"


subsection \<open>Building the entries of one source file\<close>

record Definition =
  def_ID :: string
  def_Metadata :: Metadata
  def_Criteria :: Criteria

record bucket =
  packageName :: string
  vulnerabilityID :: string

record Entry =
  CVEs :: "CVEEntry list"
  FixedVersion :: string
  AffectedCPEList :: "string list"
  Arches :: "string list"

record DefinitionSpecial =
  Entry :: Entry

record AdvisorySpecial =
  Entries :: "Entry list"

text \<open>
  A Go map that the code ranges over is an association list with distinct keys:
  \<^verbatim>\<open>m[k]\<close> is \<^const>\<open>map_of\<close>, \<^verbatim>\<open>m[k] = v\<close> is
  \<^const>\<open>AList.update\<close> (which replaces the value of a key that is present and adds a
  key that is not), and \<^verbatim>\<open>range m\<close> visits the pairs in list order, one of the
  orders Go may choose.
\<close>

type_synonym ('k, 'v) gomap = "('k \<times> 'v) list"

text \<open>
  The body of the loop over \<^verbatim>\<open>affectedPkgs\<close> in \<^verbatim>\<open>parseOVAL\<close>, run
  for one definition and one affected package. Its state is the map \<open>defs\<close> of the
  file and the package-level variable \<open>vendorCVEs\<close>.
\<close>

definition parseOVAL_pkg ::
  "Definition \<Rightarrow> pkg \<Rightarrow> (bucket, DefinitionSpecial) gomap \<times> VendorCVE list
     \<Rightarrow> (bucket, DefinitionSpecial) gomap \<times> VendorCVE list" where
  "parseOVAL_pkg advisory affectedPkg st =
     (let defs = fst st; vendorCVEs = snd st;
          pkgName = pkg_Name affectedPkg;
          altID = vendorID (References (def_Metadata advisory));
          vendorCve = vendorCVE (def_Metadata advisory);
          cveEntries = [vendorCve];
          vendorCVEs = vendorCVEs @
            [\<lparr>vc_CVE = vendorCve, vc_Title = Title (def_Metadata advisory),
              vc_Description = Description (def_Metadata advisory),
              vc_References = toReferences (References (def_Metadata advisory))\<rparr>];
          (cveEntries, vendorCVEs) =
            fold (\<lambda>bdu (cveEntries, vendorCVEs).
                    let bduEntry = \<lparr>ID = bdu_ID bdu, Severity = severityFromImpact (bdu_Impact bdu)\<rparr>
                    in (cveEntries @ [bduEntry],
                        vendorCVEs @ [\<lparr>vc_CVE = bduEntry, vc_Title = '''', vc_Description = '''',
                                       vc_References = [bdu_Href bdu]\<rparr>]))
                 (adv_BDUs (Advisory (def_Metadata advisory))) (cveEntries, vendorCVEs);
          cveEntries =
            fold (\<lambda>cve cveEntries.
                    cveEntries @ [\<lparr>ID = cve_ID cve, Severity = severityFromImpact (cve_Impact cve)\<rparr>])
                 (adv_CVEs (Advisory (def_Metadata advisory))) cveEntries
      in if altID \<noteq> ''''
         then (AList.update \<lparr>packageName = pkgName, vulnerabilityID = altID\<rparr>
                 \<lparr>Entry = \<lparr>CVEs = cveEntries,
                            FixedVersion = pkg_FixedVersion affectedPkg,
                            AffectedCPEList = adv_AffectedCPEs (Advisory (def_Metadata advisory)),
                            Arches = pkg_Arches affectedPkg\<rparr>\<rparr>
                 defs,
               vendorCVEs)
         else (fold (\<lambda>cve defs.
                       AList.update \<lparr>packageName = pkgName, vulnerabilityID = ID cve\<rparr>
                         \<lparr>Entry = \<lparr>CVEs = [\<lparr>ID = '''', Severity = Severity cve\<rparr>],
                                    FixedVersion = pkg_FixedVersion affectedPkg,
                                    AffectedCPEList = adv_AffectedCPEs (Advisory (def_Metadata advisory)),
                                    Arches = pkg_Arches affectedPkg\<rparr>\<rparr>
                         defs)
                    cveEntries defs,
               vendorCVEs))"

text \<open>The body of the loop over the definitions of the file.\<close>

definition parseOVAL_definition ::
  "(string \<rightharpoonup> resolvedTest) \<Rightarrow> Definition
     \<Rightarrow> (bucket, DefinitionSpecial) gomap \<times> VendorCVE list
     \<Rightarrow> (bucket, DefinitionSpecial) gomap \<times> VendorCVE list" where
  "parseOVAL_definition tests advisory st =
     (if Contains (def_ID advisory) ''unaffected'' then st
      else fold (parseOVAL_pkg advisory) (walkCriterion (def_Criteria advisory) tests) st)"

text \<open>
  \<^verbatim>\<open>parseOVAL\<close> takes the directory and the value of \<open>vendorCVEs\<close> and
  returns its result with the new value of \<open>vendorCVEs\<close>.
\<close>

definition parseOVAL ::
  "Definition ovalDir \<Rightarrow> VendorCVE list
     \<Rightarrow> (error + (bucket, DefinitionSpecial) gomap) \<times> VendorCVE list" where
  "parseOVAL dir vendorCVEs =
     (case resolveTests dir of
        Inl err \<Rightarrow> (Inl err, vendorCVEs)
      | Inr tests \<Rightarrow>
          (case parseDefinitions dir of
             Inl err \<Rightarrow> (Inl err, vendorCVEs)
           | Inr definitions \<Rightarrow>
               (let (defs, vendorCVEs) =
                      fold (parseOVAL_definition tests) definitions ([], vendorCVEs)
                in (Inr defs, vendorCVEs))))"

subsection \<open>Merging the entries of the files\<close>

text \<open>
  Modelled from the spec: \<^verbatim>\<open>ustrings.Merge\<close> of
  \<^verbatim>\<open>pkg/utils/strings\<close>, whose source is not among the files at hand. The
  specification says of it that it unions two lists, ``order-preserving, no duplicates'':
  the strings of \<open>a\<close> and then of \<open>b\<close>, each kept where it occurs first.
\<close>

definition Merge :: "string list \<Rightarrow> string list \<Rightarrow> string list" where
  "Merge a b = fold (\<lambda>s merged. if s \<in> set merged then merged else merged @ [s]) (a @ b) []"

text \<open>
  The loop over \<^verbatim>\<open>old.Entries\<close>: every entry with the fixed version and the
  arches of the new entry takes the merged platform list, and \<open>found\<close> records
  whether there was one.
\<close>

fun mergeEntries_loop :: "Entry list \<Rightarrow> Entry \<Rightarrow> bool \<Rightarrow> Entry list \<times> bool" where
  "mergeEntries_loop [] e found = ([], found)"
| "mergeEntries_loop (old # olds) e found =
     (if FixedVersion old = FixedVersion e \<and> Arches old = Arches e
      then (let (rest, found) = mergeEntries_loop olds e True
            in (old\<lparr>AffectedCPEList := Merge (AffectedCPEList old) (AffectedCPEList e)\<rparr> # rest,
                found))
      else (let (rest, found) = mergeEntries_loop olds e found
            in (old # rest, found)))"

text \<open>The body of the loop of \<^verbatim>\<open>mergeAdvisories\<close>, for one pair of \<open>defs\<close>.\<close>

definition mergeAdvisories_step ::
  "bucket \<times> DefinitionSpecial \<Rightarrow> (bucket, AdvisorySpecial) gomap
     \<Rightarrow> (bucket, AdvisorySpecial) gomap" where
  "mergeAdvisories_step kv advisories =
     (let bkt = fst kv; d = snd kv in
      case map_of advisories bkt of
        Some old \<Rightarrow>
          (let (entries, found) = mergeEntries_loop (Entries old) (Entry d) False;
               old = old\<lparr>Entries := entries\<rparr>;
               old = (if \<not> found then old\<lparr>Entries := Entries old @ [Entry d]\<rparr> else old)
           in AList.update bkt old advisories)
      | None \<Rightarrow> AList.update bkt \<lparr>Entries = [Entry d]\<rparr> advisories)"

definition mergeAdvisories ::
  "(bucket, AdvisorySpecial) gomap \<Rightarrow> (bucket, DefinitionSpecial) gomap
     \<Rightarrow> (bucket, AdvisorySpecial) gomap" where
  "mergeAdvisories advisories defs = fold mergeAdvisories_step defs advisories"


subsection \<open>The store and the two write phases\<close>

text \<open>
  \<^verbatim>\<open>types.VulnerabilityDetail\<close> as \<^verbatim>\<open>putVendorVulnerabilityDetail\<close>
  fills it. Its four CVSS fields are always written with their zero values and are left
  out.
\<close>

record VulnerabilityDetail =
  vd_Severity :: Severity
  vd_References :: "string list"
  vd_Title :: string
  vd_Description :: string

record DataSource =
  ds_ID :: string
  ds_Name :: string
  ds_URL :: string

text \<open>\<^verbatim>\<open>vulnerability.ALT\<close>, the identifier of this source.\<close>

definition ALT :: string where
  "ALT = ''alt''"

definition rootBucket :: string where
  "rootBucket = ''alt''"

definition source :: DataSource where
  "source = \<lparr>ds_ID = ALT, ds_Name = ''alt'', ds_URL = ''https://rdb.altlinux.org''\<rparr>"

text \<open>The value \<^verbatim>\<open>ForEachAdvisory\<close> gives for a key: the stored bytes.\<close>

record Value =
  Content :: string

text \<open>
  The interface \<^verbatim>\<open>db.Operation\<close> behind the field \<^verbatim>\<open>dbc\<close>, over a
  store of type \<open>'db\<close>. Its implementation is a collaborator and stays a parameter:
  a write gives the new store or an error; \<open>BatchUpdate\<close> runs a function on the
  store and gives its error, if any, with the store that results.
\<close>

record 'db Operation =
  BatchUpdate :: "('db \<Rightarrow> error + 'db) \<Rightarrow> 'db \<Rightarrow> error option \<times> 'db"
  PutDataSource :: "string \<Rightarrow> DataSource \<Rightarrow> 'db \<Rightarrow> error + 'db"
  PutAdvisoryDetail :: "string \<Rightarrow> string \<Rightarrow> string list \<Rightarrow> AdvisorySpecial \<Rightarrow> 'db \<Rightarrow> error + 'db"
  PutVulnerabilityID :: "string \<Rightarrow> 'db \<Rightarrow> error + 'db"
  PutVulnerabilityDetail :: "string \<Rightarrow> string \<Rightarrow> VulnerabilityDetail \<Rightarrow> 'db \<Rightarrow> error + 'db"
  ForEachAdvisory :: "string list \<Rightarrow> string \<Rightarrow> 'db \<Rightarrow> error + (string, Value) gomap"

text \<open>
  What a run of the package can change: the package-level variable
  \<^verbatim>\<open>vendorCVEs\<close>, which lives as long as the process, and the store.
\<close>

record 'db state =
  vendorCVEs :: "VendorCVE list"
  store :: 'db

definition putVendorVulnerabilityDetail :: "'db Operation \<Rightarrow> VendorCVE \<Rightarrow> 'db \<Rightarrow> error + 'db" where
  "putVendorVulnerabilityDetail dbc cve tx =
     (let vuln = \<lparr>vd_Severity = Severity (vc_CVE cve), vd_References = vc_References cve,
                  vd_Title = vc_Title cve, vd_Description = vc_Description cve\<rparr>
      in case PutVulnerabilityDetail dbc (ID (vc_CVE cve)) ALT vuln tx of
           Inl err \<Rightarrow> Inl (Wrapped ''failed to save ALT Vendor vulnerability'' err)
         | Inr tx \<Rightarrow>
             (case PutVulnerabilityID dbc (ID (vc_CVE cve)) tx of
                Inl err \<Rightarrow> Inl (Wrapped ''failed to save the vulnerability ID'' err)
              | Inr tx \<Rightarrow> Inr tx))"

fun putVendorCVEs_loop :: "'db Operation \<Rightarrow> VendorCVE list \<Rightarrow> 'db \<Rightarrow> error + 'db" where
  "putVendorCVEs_loop dbc [] tx = Inr tx"
| "putVendorCVEs_loop dbc (cve # cves) tx =
     (case putVendorVulnerabilityDetail dbc cve tx of
        Inl err \<Rightarrow> Inl err
      | Inr tx \<Rightarrow> putVendorCVEs_loop dbc cves tx)"

text \<open>\<^verbatim>\<open>putVendorCVEs\<close> writes every record of \<open>vendorCVEs\<close>.\<close>

definition putVendorCVEs :: "'db Operation \<Rightarrow> 'db state \<Rightarrow> error option \<times> 'db state" where
  "putVendorCVEs dbc st =
     (let (err, db) = BatchUpdate dbc (putVendorCVEs_loop dbc (vendorCVEs st)) (store st)
      in (err, st\<lparr>store := db\<rparr>))"

fun save_loop :: "'db Operation \<Rightarrow> (bucket, AdvisorySpecial) gomap \<Rightarrow> 'db \<Rightarrow> error + 'db" where
  "save_loop dbc [] tx = Inr tx"
| "save_loop dbc ((bkt, advisory) # advisories) tx =
     (case PutAdvisoryDetail dbc (vulnerabilityID bkt) (packageName bkt) [rootBucket] advisory tx of
        Inl err \<Rightarrow> Inl (Wrapped ''failed to save ALT OVAL advisory'' err)
      | Inr tx \<Rightarrow>
          (case PutVulnerabilityID dbc (vulnerabilityID bkt) tx of
             Inl err \<Rightarrow> Inl (Wrapped ''failed to put severity'' err)
           | Inr tx \<Rightarrow> save_loop dbc advisories tx))"

definition save ::
  "'db Operation \<Rightarrow> (bucket, AdvisorySpecial) gomap \<Rightarrow> 'db state \<Rightarrow> error option \<times> 'db state" where
  "save dbc advisories st =
     (let (err, db) =
            BatchUpdate dbc
              (\<lambda>tx. case PutDataSource dbc rootBucket source tx of
                       Inl err \<Rightarrow> Inl (Wrapped ''failed to put data source'' err)
                     | Inr tx \<Rightarrow> save_loop dbc advisories tx)
              (store st)
      in case err of
           Some err \<Rightarrow> (Some (Wrapped ''batch update error'' err), st\<lparr>store := db\<rparr>)
         | None \<Rightarrow> (None, st\<lparr>store := db\<rparr>))"

subsection \<open>A run: Update\<close>

text \<open>
  The tree under \<^verbatim>\<open>vuln-list-alt/oval\<close> as \<^verbatim>\<open>os.ReadDir\<close> shows it:
  the listing of the root (its branches, by name) or an error, and for every branch the
  listing of its product directories or an error.
\<close>

type_synonym ovalTree = "error + (string \<times> (error + (string \<times> Definition ovalDir) list)) list"

definition getBranches ::
  "ovalTree \<Rightarrow> error + (string \<times> (error + (string \<times> Definition ovalDir) list)) list" where
  "getBranches root =
     (case root of
        Inl err \<Rightarrow> Inl (Wrapped ''failed to get directory branch list'' err)
      | Inr branches \<Rightarrow> Inr branches)"

definition getProducts ::
  "error + (string \<times> Definition ovalDir) list \<Rightarrow> error + (string \<times> Definition ovalDir) list" where
  "getProducts branchDir =
     (case branchDir of
        Inl err \<Rightarrow> Inl (Wrapped ''failed to get directory products list'' err)
      | Inr products \<Rightarrow> Inr products)"

text \<open>The loop over the product directories of one branch.\<close>

fun Update_products ::
  "(string \<times> Definition ovalDir) list \<Rightarrow> (bucket, AdvisorySpecial) gomap \<Rightarrow> VendorCVE list
     \<Rightarrow> (error + (bucket, AdvisorySpecial) gomap) \<times> VendorCVE list" where
  "Update_products [] advisories vcs = (Inr advisories, vcs)"
| "Update_products (f # products) advisories vcs =
     (case parseOVAL (snd f) vcs of
        (Inl err, vcs) \<Rightarrow> (Inl (Wrapped ''failed to parse product OVAL'' err), vcs)
      | (Inr definitions, vcs) \<Rightarrow>
          Update_products products (mergeAdvisories advisories definitions) vcs)"

text \<open>The loop over the branches.\<close>

fun Update_branches ::
  "(string \<times> (error + (string \<times> Definition ovalDir) list)) list
     \<Rightarrow> (bucket, AdvisorySpecial) gomap \<Rightarrow> VendorCVE list
     \<Rightarrow> (error + (bucket, AdvisorySpecial) gomap) \<times> VendorCVE list" where
  "Update_branches [] advisories vcs = (Inr advisories, vcs)"
| "Update_branches (branch # branches) advisories vcs =
     (case getProducts (snd branch) of
        Inl err \<Rightarrow> (Inl err, vcs)
      | Inr products \<Rightarrow>
          (case Update_products products advisories vcs of
             (Inl err, vcs) \<Rightarrow> (Inl err, vcs)
           | (Inr advisories, vcs) \<Rightarrow> Update_branches branches advisories vcs))"

text \<open>
  \<^verbatim>\<open>Update\<close>: the map \<open>advisories\<close> starts empty in every call; the variable
  \<open>vendorCVEs\<close> is read from the state as the last call left it, and nothing in
  the package assigns to it other than the \<^verbatim>\<open>append\<close> of
  \<^verbatim>\<open>parseOVAL\<close>.
\<close>

definition Update :: "'db Operation \<Rightarrow> ovalTree \<Rightarrow> 'db state \<Rightarrow> error option \<times> 'db state" where
  "Update dbc root st =
     (case getBranches root of
        Inl err \<Rightarrow> (Some err, st)
      | Inr branches \<Rightarrow>
          (case Update_branches branches [] (vendorCVEs st) of
             (Inl err, vcs) \<Rightarrow> (Some err, st\<lparr>vendorCVEs := vcs\<rparr>)
           | (Inr advisories, vcs) \<Rightarrow>
               (case putVendorCVEs dbc (st\<lparr>vendorCVEs := vcs\<rparr>) of
                  (Some err, st) \<Rightarrow> (Some (Formatted ''put vendor cve error'' err), st)
                | (None, st) \<Rightarrow>
                    (case save dbc advisories st of
                       (Some err, st) \<Rightarrow> (Some (Wrapped ''save error'' err), st)
                     | (None, st) \<Rightarrow> (None, st)))))"

subsection \<open>The query: Get\<close>

text \<open>\<^verbatim>\<open>types.Advisory\<close>, with the fields \<^verbatim>\<open>Get\<close> fills.\<close>

record types_Advisory =
  VulnerabilityID :: string
  VendorIDs :: "string list"
  a_Severity :: Severity
  a_FixedVersion :: string
  a_Arches :: "string list"

fun contains :: "string list \<Rightarrow> string \<Rightarrow> bool" where
  "contains [] val = False"
| "contains (e # lst) val = (if e = val then True else contains lst val)"

text \<open>The body of the loop over \<^verbatim>\<open>entry.CVEs\<close>.\<close>

definition Get_cve :: "string \<Rightarrow> Entry \<Rightarrow> CVEEntry \<Rightarrow> types_Advisory list \<Rightarrow> types_Advisory list" where
  "Get_cve vulnID entry cve advisories =
     (let advisory = \<lparr>VulnerabilityID = '''', VendorIDs = [], a_Severity = Severity cve,
                      a_FixedVersion = FixedVersion entry, a_Arches = Arches entry\<rparr>;
          advisory = (if HasPrefix vulnID ''CVE-''
                      then advisory\<lparr>VulnerabilityID := vulnID\<rparr>
                      else advisory\<lparr>VulnerabilityID := ID cve, VendorIDs := [vulnID]\<rparr>)
      in advisories @ [advisory])"

text \<open>The body of the loop over \<^verbatim>\<open>adv.Entries\<close>.\<close>

definition Get_entry :: "string \<Rightarrow> string \<Rightarrow> Entry \<Rightarrow> types_Advisory list \<Rightarrow> types_Advisory list" where
  "Get_entry vulnID cpe entry advisories =
     (if \<not> contains (AffectedCPEList entry) cpe then advisories
      else fold (Get_cve vulnID entry) (CVEs entry) advisories)"

text \<open>
  The loop over \<^verbatim>\<open>rawAdvisories\<close>. \<open>unmarshal\<close> stands for
  \<^verbatim>\<open>json.Unmarshal\<close> into an \<^verbatim>\<open>AdvisorySpecial\<close>.
\<close>

fun Get_loop ::
  "(string \<Rightarrow> error + AdvisorySpecial) \<Rightarrow> (string, Value) gomap \<Rightarrow> string
     \<Rightarrow> types_Advisory list \<Rightarrow> error + types_Advisory list" where
  "Get_loop unmarshal [] cpe advisories = Inr advisories"
| "Get_loop unmarshal ((vulnID, v) # raw) cpe advisories =
     (if length (Content v) = 0 then Get_loop unmarshal raw cpe advisories
      else case unmarshal (Content v) of
        Inl err \<Rightarrow> Inl (Wrapped ''failed to unmarshal advisory JSON'' err)
      | Inr adv \<Rightarrow>
          Get_loop unmarshal raw cpe (fold (Get_entry vulnID cpe) (Entries adv) advisories))"

definition Get ::
  "'db Operation \<Rightarrow> (string \<Rightarrow> error + AdvisorySpecial) \<Rightarrow> 'db \<Rightarrow> string \<Rightarrow> string
     \<Rightarrow> error + types_Advisory list" where
  "Get dbc unmarshal db pkgName cpe =
     (case ForEachAdvisory dbc [rootBucket] pkgName db of
        Inl err \<Rightarrow> Inl (Wrapped ''unable to iterate advisories'' err)
      | Inr rawAdvisories \<Rightarrow> Get_loop unmarshal rawAdvisories cpe [])"

subsection \<open>Reference definitions\<close>

text \<open>
  The definitions of this subsection are not translations of code: each states, in the
  words of the specification, what a function of the package is said to compute, and is
  compared with the translation of that function below.
\<close>

text \<open>
  Splitting a pattern at a separator, told from left to right without the code's
  \<^const>\<open>Split\<close>: the bytes read since the last separator are the current field; a
  separator closes the field and opens an empty one; the end of the pattern closes the
  last field.
\<close>

fun split_fields_from :: "string \<Rightarrow> string \<Rightarrow> char \<Rightarrow> string list" where
  "split_fields_from field [] sep = [field]"
| "split_fields_from field (c # cs) sep =
     (if c = sep then field # split_fields_from [] cs sep
      else split_fields_from (field @ [c]) cs sep)"

definition split_fields :: "string \<Rightarrow> char \<Rightarrow> string list" where
  "split_fields s sep = split_fields_from [] s sep"

text \<open>
  Joining fields with a separator of one byte between them, as \<^verbatim>\<open>strings.Join\<close>
  does. A list of fields is the split of a pattern when it is not empty, none of its
  fields holds the separator, and joined it gives the pattern.
\<close>

fun Join :: "string list \<Rightarrow> char \<Rightarrow> string" where
  "Join [] sep = []"
| "Join [w] sep = w"
| "Join (w # v # ws) sep = w @ sep # Join (v # ws) sep"

text \<open>
  The union over the reachable leaves of a criteria tree: for a node, one fact for each of
  its own test references that the fact map resolves (the others are skipped), in order,
  followed by the facts of its children in child order. The architecture list of a fact is
  its non-empty pattern split at \<^verbatim>\<open>|\<close>, and empty for an empty pattern.
\<close>

fun leaves :: "Criteria \<Rightarrow> (string \<rightharpoonup> resolvedTest) \<Rightarrow> pkg list" where
  "leaves (Criteria criterions criterias) tests =
     concat (map (\<lambda>c. case tests (TestRef c) of
                         None \<Rightarrow> []
                       | Some t \<Rightarrow>
                           [\<lparr>pkg_Name = rt_Name t, pkg_FixedVersion = rt_FixedVersion t,
                             pkg_Arches = (if rt_Arch t = '''' then []
                                           else split_fields (rt_Arch t) CHR ''|'')\<rparr>])
                 criterions)
     @ concat (map (\<lambda>c. leaves c tests) criterias)"

text \<open>
  What \<^verbatim>\<open>mergeAdvisories\<close> is said to do with one bucket: given what the running
  map holds for the bucket, if anything, and the incoming entry. A bucket that holds an
  entry with the fixed version and the arches (as ordered lists) of the incoming one
  keeps its entries, and each such entry takes the union of the two platform lists;
  otherwise the incoming entry is appended; a new bucket holds the incoming entry alone.
\<close>

definition same_variant :: "Entry \<Rightarrow> Entry \<Rightarrow> bool" where
  "same_variant old e = (FixedVersion old = FixedVersion e \<and> Arches old = Arches e)"

definition merged_bucket :: "AdvisorySpecial option \<Rightarrow> Entry \<Rightarrow> AdvisorySpecial" where
  "merged_bucket held e =
     (case held of
        None \<Rightarrow> \<lparr>Entries = [e]\<rparr>
      | Some old \<Rightarrow>
          if list_ex (\<lambda>x. same_variant x e) (Entries old)
          then \<lparr>Entries = map (\<lambda>x. if same_variant x e
                                    then x\<lparr>AffectedCPEList := Merge (AffectedCPEList x) (AffectedCPEList e)\<rparr>
                                    else x)
                              (Entries old)\<rparr>
          else \<lparr>Entries = Entries old @ [e]\<rparr>)"

text \<open>
  The invariant of the running map: within the entry list of a bucket, no two entries
  have the same fixed version together with the same list of arches.
\<close>

definition variants_distinct :: "(bucket, AdvisorySpecial) gomap \<Rightarrow> bool" where
  "variants_distinct advisories =
     list_all (\<lambda>kv. distinct (map (\<lambda>e. (FixedVersion e, Arches e)) (Entries (snd kv)))) advisories"

text \<open>
  The vendor-catalog records of a definition: one for the vendor's own entry, with the
  title, the description and the reference URLs of the definition, then one for each
  bulletin, with empty title and description and the bulletin's link as its only
  reference. The CVE cross-references give none.
\<close>

definition catalog_records :: "Definition \<Rightarrow> VendorCVE list" where
  "catalog_records advisory =
     \<lparr>vc_CVE = vendorCVE (def_Metadata advisory),
      vc_Title = Title (def_Metadata advisory),
      vc_Description = Description (def_Metadata advisory),
      vc_References = map RefURL (References (def_Metadata advisory))\<rparr>
     # map (\<lambda>bdu. \<lparr>vc_CVE = \<lparr>ID = bdu_ID bdu, Severity = severityFromImpact (bdu_Impact bdu)\<rparr>,
                      vc_Title = '''', vc_Description = '''', vc_References = [bdu_Href bdu]\<rparr>)
           (adv_BDUs (Advisory (def_Metadata advisory)))"

text \<open>
  The vulnerability records of a definition: the vendor's own, then one for each
  bulletin, then one for each CVE cross-reference.
\<close>

definition vulnerability_records :: "Definition \<Rightarrow> CVEEntry list" where
  "vulnerability_records advisory =
     vendorCVE (def_Metadata advisory)
     # map (\<lambda>bdu. \<lparr>ID = bdu_ID bdu, Severity = severityFromImpact (bdu_Impact bdu)\<rparr>)
           (adv_BDUs (Advisory (def_Metadata advisory)))
     @ map (\<lambda>cve. \<lparr>ID = cve_ID cve, Severity = severityFromImpact (cve_Impact cve)\<rparr>)
           (adv_CVEs (Advisory (def_Metadata advisory)))"

subsection \<open>Example inputs\<close>

text \<open>
  A fact table with two tests that resolve to the same package, for different
  architectures and with different fixed versions.
\<close>

definition ex_tests :: "string \<rightharpoonup> resolvedTest" where
  "ex_tests =
     [''t1'' \<mapsto> \<lparr>rt_Name = ''libfoo'', rt_FixedVersion = ''1.2-4'', rt_Arch = ''x86_64''\<rparr>,
      ''t2'' \<mapsto> \<lparr>rt_Name = ''libfoo'', rt_FixedVersion = ''1.2-5'', rt_Arch = ''i586''\<rparr>]"

text \<open>
  A definition with a vendor reference, no bulletin and no CVE cross-reference, whose
  criteria name the tests given.
\<close>

definition ex_definition :: "string list \<Rightarrow> Definition" where
  "ex_definition refs =
     \<lparr>def_ID = ''oval:org.altlinux.errata:def:20241001'',
      def_Metadata =
        \<lparr>Title = ''ALT-PU-2024-1001: package libfoo update'',
         Description = ''fixes libfoo'',
         References = [\<lparr>RefID = ''ALT-PU-2024-1001'', RefURL = ''https://errata.altlinux.org/ALT-PU-2024-1001'',
                        Source = ''ALTPU''\<rparr>],
         Advisory = \<lparr>adv_Severity = ''High'', adv_BDUs = [], adv_CVEs = [],
                      adv_AffectedCPEs = [''cpe:/o:alt:workstation:10'']\<rparr>\<rparr>,
      def_Criteria = Criteria (map (\<lambda>r. \<lparr>TestRef = r\<rparr>) refs) []\<rparr>"

text \<open>The catalog record of \<^const>\<open>ex_definition\<close>.\<close>

definition ex_record :: VendorCVE where
  "ex_record =
     \<lparr>vc_CVE = \<lparr>ID = ''ALT-PU-2024-1001'', Severity = SeverityHigh\<rparr>,
      vc_Title = ''ALT-PU-2024-1001: package libfoo update'',
      vc_Description = ''fixes libfoo'',
      vc_References = [''https://errata.altlinux.org/ALT-PU-2024-1001'']\<rparr>"

text \<open>
  A store for the examples that keeps a log of the vulnerability details written to it
  and accepts every other write without recording it.
\<close>

definition log_dbc :: "(string \<times> VulnerabilityDetail) list Operation" where
  "log_dbc =
     \<lparr>BatchUpdate = (\<lambda>fn db. case fn db of Inl err \<Rightarrow> (Some err, db) | Inr db' \<Rightarrow> (None, db')),
      PutDataSource = (\<lambda>name src db. Inr db),
      PutAdvisoryDetail = (\<lambda>vulnID pkgName path adv db. Inr db),
      PutVulnerabilityID = (\<lambda>vulnID db. Inr db),
      PutVulnerabilityDetail = (\<lambda>vulnID src detail db. Inr (db @ [(vulnID, detail)])),
      ForEachAdvisory = (\<lambda>path pkgName db. Inr [])\<rparr>"

text \<open>A feed with one branch and one product directory, which holds \<^const>\<open>ex_definition\<close>.\<close>

definition ex_tree :: ovalTree where
  "ex_tree =
     Inr [(''p10'',
           Inr [(''libfoo'',
                 \<lparr>objects_json = Inr [\<lparr>obj_ID = ''o1'', obj_Name = ''libfoo''\<rparr>],
                  states_json = Inr [],
                  tests_json = Inr [\<lparr>test_ID = ''t1'', ObjectRef = ''o1'', StateRef = ''''\<rparr>],
                  definitions_json = Inr [ex_definition [''t1'']]\<rparr>)])]"

text \<open>
  A store for the examples that holds advisories as
  \<^verbatim>\<open>ForEachAdvisory\<close> returns them, and a decoder that reads every stored content
  as one advisory: a single entry for one platform with one vulnerability record, whose
  identifier is empty.
\<close>

definition raw_dbc :: "(string, Value) gomap Operation" where
  "raw_dbc =
     \<lparr>BatchUpdate = (\<lambda>fn db. case fn db of Inl err \<Rightarrow> (Some err, db) | Inr db' \<Rightarrow> (None, db')),
      PutDataSource = (\<lambda>name src db. Inr db),
      PutAdvisoryDetail = (\<lambda>vulnID pkgName path adv db. Inr db),
      PutVulnerabilityID = (\<lambda>vulnID db. Inr db),
      PutVulnerabilityDetail = (\<lambda>vulnID src detail db. Inr db),
      ForEachAdvisory = (\<lambda>path pkgName db. Inr db)\<rparr>"

definition ex_unmarshal :: "string \<Rightarrow> error + AdvisorySpecial" where
  "ex_unmarshal content =
     Inr \<lparr>Entries = [\<lparr>CVEs = [\<lparr>ID = '''', Severity = SeverityHigh\<rparr>],
                       FixedVersion = ''1.2-4'',
                       AffectedCPEList = [''cpe:/o:alt:workstation:10''],
                       Arches = [''x86_64'']\<rparr>]\<rparr>"

text \<open>
  The results \<^verbatim>\<open>Get\<close> is said to give for one stored advisory: one for each
  vulnerability record of each entry whose platform list holds the queried platform.
  Its primary identifier is the bucket key when the key starts with \<^verbatim>\<open>CVE-\<close>;
  otherwise it is the identifier of the record, and the bucket key is the vendor
  identifier of the result.
\<close>

definition results_for :: "string \<Rightarrow> AdvisorySpecial \<Rightarrow> string \<Rightarrow> types_Advisory list" where
  "results_for vulnID adv cpe =
     concat (map (\<lambda>entry.
                    map (\<lambda>cve.
                           \<lparr>VulnerabilityID = (if HasPrefix vulnID ''CVE-'' then vulnID else ID cve),
                            VendorIDs = (if HasPrefix vulnID ''CVE-'' then [] else [vulnID]),
                            a_Severity = Severity cve,
                            a_FixedVersion = FixedVersion entry,
                            a_Arches = Arches entry\<rparr>)
                        (CVEs entry))
                 (filter (\<lambda>entry. cpe \<in> set (AffectedCPEList entry)) (Entries adv)))"

text \<open>The detail that \<^verbatim>\<open>putVendorVulnerabilityDetail\<close> stores for \<^const>\<open>ex_record\<close>.\<close>

definition ex_detail :: VulnerabilityDetail where
  "ex_detail =
     \<lparr>vd_Severity = SeverityHigh,
      vd_References = [''https://errata.altlinux.org/ALT-PU-2024-1001''],
      vd_Title = ''ALT-PU-2024-1001: package libfoo update'',
      vd_Description = ''fixes libfoo''\<rparr>"

text \<open>
  The entries the builder emits for one affected-package fact of a definition, each with
  its bucket, in the order of emission: with a canonical vendor identifier one entry under
  the package and that identifier, carrying every vulnerability record; without one, an
  entry for each vulnerability record under the package and the record's identifier,
  carrying that record with its identifier cleared.
\<close>

definition emitted_for_fact :: "Definition \<Rightarrow> pkg \<Rightarrow> (bucket \<times> DefinitionSpecial) list" where
  "emitted_for_fact advisory p =
     (if vendorID (References (def_Metadata advisory)) \<noteq> ''''
      then [(\<lparr>packageName = pkg_Name p,
               vulnerabilityID = vendorID (References (def_Metadata advisory))\<rparr>,
             \<lparr>Entry = \<lparr>CVEs = vulnerability_records advisory,
                        FixedVersion = pkg_FixedVersion p,
                        AffectedCPEList = adv_AffectedCPEs (Advisory (def_Metadata advisory)),
                        Arches = pkg_Arches p\<rparr>\<rparr>)]
      else map (\<lambda>cve. (\<lparr>packageName = pkg_Name p, vulnerabilityID = ID cve\<rparr>,
                        \<lparr>Entry = \<lparr>CVEs = [\<lparr>ID = '''', Severity = Severity cve\<rparr>],
                                   FixedVersion = pkg_FixedVersion p,
                                   AffectedCPEList = adv_AffectedCPEs (Advisory (def_Metadata advisory)),
                                   Arches = pkg_Arches p\<rparr>\<rparr>))
               (vulnerability_records advisory))"

text \<open>
  The entries emitted for a definition, fact after fact (none for a skipped definition),
  and for the definitions of a file, definition after definition.
\<close>

definition emitted_for_definition ::
  "(string \<rightharpoonup> resolvedTest) \<Rightarrow> Definition \<Rightarrow> (bucket \<times> DefinitionSpecial) list" where
  "emitted_for_definition tests advisory =
     (if Contains (def_ID advisory) ''unaffected'' then []
      else concat (map (emitted_for_fact advisory) (walkCriterion (def_Criteria advisory) tests)))"

definition emitted_for_file ::
  "(string \<rightharpoonup> resolvedTest) \<Rightarrow> Definition list \<Rightarrow> (bucket \<times> DefinitionSpecial) list" where
  "emitted_for_file tests definitions = concat (map (emitted_for_definition tests) definitions)"

text \<open>
  The last entry emitted under a bucket, if any: \<^const>\<open>map_of\<close> finds the first pair
  with the key, which in the reversed list is the last one emitted.
\<close>

definition last_emitted :: "(bucket \<times> DefinitionSpecial) list \<Rightarrow> bucket \<rightharpoonup> DefinitionSpecial" where
  "last_emitted emitted = map_of (rev emitted)"

text \<open>
  A product directory whose two tests resolve to the facts of \<^const>\<open>ex_tests\<close>, with
  one definition whose criteria name both.
\<close>

definition ex_dir :: "Definition ovalDir" where
  "ex_dir =
     \<lparr>objects_json = Inr [\<lparr>obj_ID = ''o1'', obj_Name = ''libfoo''\<rparr>],
      states_json =
        Inr [\<lparr>state_ID = ''s1'',
               state_Arch = \<lparr>Datatype = ''string'', Operation = ''pattern match'', Text = ''x86_64''\<rparr>,
               state_EVR = \<lparr>Datatype = ''evr_string'', Operation = ''less than'', Text = ''1.2-4''\<rparr>\<rparr>,
             \<lparr>state_ID = ''s2'',
               state_Arch = \<lparr>Datatype = ''string'', Operation = ''pattern match'', Text = ''i586''\<rparr>,
               state_EVR = \<lparr>Datatype = ''evr_string'', Operation = ''less than'', Text = ''1.2-5''\<rparr>\<rparr>],
      tests_json = Inr [\<lparr>test_ID = ''t1'', ObjectRef = ''o1'', StateRef = ''s1''\<rparr>,
                        \<lparr>test_ID = ''t2'', ObjectRef = ''o1'', StateRef = ''s2''\<rparr>],
      definitions_json = Inr [ex_definition [''t1'', ''t2'']]\<rparr>"

text \<open>
  A definition without a vendor reference, with one bulletin and one CVE
  cross-reference, whose criteria name the first test of \<^const>\<open>ex_tests\<close>.
\<close>

definition ex_bulletin_definition :: Definition where
  "ex_bulletin_definition =
     \<lparr>def_ID = ''oval:org.altlinux.errata:def:20241002'',
      def_Metadata =
        \<lparr>Title = ''package libfoo update'',
         Description = ''fixes libfoo'',
         References = [],
         Advisory = \<lparr>adv_Severity = ''High'',
                      adv_BDUs = [\<lparr>bdu_ID = ''BDU:2024-00001'', bdu_Impact = ''High'',
                                   bdu_Href = ''https://bdu.fstec.ru/vul/2024-00001''\<rparr>],
                      adv_CVEs = [\<lparr>cve_ID = ''CVE-2024-9999'', cve_Impact = ''High''\<rparr>],
                      adv_AffectedCPEs = [''cpe:/o:alt:workstation:10'']\<rparr>\<rparr>,
      def_Criteria = Criteria [\<lparr>TestRef = ''t1''\<rparr>] []\<rparr>"

section \<open>Properties\<close>

subsection \<open>The canonical vendor identifier\<close>

text \<open>
  C1 (as the code has it). \<^const>\<open>vendorID\<close> is the \<open>RefID\<close> of the first
  reference, in list order, whose source tag is \<^verbatim>\<open>"ALTPU"\<close>; when no reference
  has that tag it is the empty string.
\<close>

theorem vendorID_first_match:
  "vendorID refs =
     (case filter (\<lambda>r. Source r = ''ALTPU'') refs of [] \<Rightarrow> '''' | r # _ \<Rightarrow> RefID r)"
  by (induction refs) auto

text \<open>
  C1 as stated fails: with two \<^verbatim>\<open>"ALTPU"\<close> references the result is not the
  \<open>RefID\<close> of the last of them.
\<close>

theorem vendorID_last_counterexample:
  "length (filter (\<lambda>r. Source r = ''ALTPU'')
       [\<lparr>RefID = ''ALT-PU-2024-1'', RefURL = '''', Source = ''ALTPU''\<rparr>,
        \<lparr>RefID = ''ALT-PU-2024-2'', RefURL = '''', Source = ''ALTPU''\<rparr>]) > 1
   \<and> vendorID
       [\<lparr>RefID = ''ALT-PU-2024-1'', RefURL = '''', Source = ''ALTPU''\<rparr>,
        \<lparr>RefID = ''ALT-PU-2024-2'', RefURL = '''', Source = ''ALTPU''\<rparr>]
     \<noteq> RefID (last (filter (\<lambda>r. Source r = ''ALTPU'')
       [\<lparr>RefID = ''ALT-PU-2024-1'', RefURL = '''', Source = ''ALTPU''\<rparr>,
        \<lparr>RefID = ''ALT-PU-2024-2'', RefURL = '''', Source = ''ALTPU''\<rparr>]))"
  by simp

subsection \<open>The identifier of the vendor's own record\<close>

lemma vendorCVE_loop_last:
  "vendorCVE_loop refs ident =
     (case filter (\<lambda>r. Contains (RefID r) ''ALT'') refs of
        [] \<Rightarrow> ident | r # rs \<Rightarrow> RefID (last (r # rs)))"
  by (induction refs arbitrary: ident) (auto split: list.splits)

text \<open>
  C2 (as the code has it). The identifier of the record built by \<^const>\<open>vendorCVE\<close>
  is the \<open>RefID\<close> of the last reference, in list order, whose \<open>RefID\<close> contains
  \<^verbatim>\<open>"ALT"\<close>, and the empty string when there is none; the source tags, and so
  the canonical vendor identifier, play no part in it.
\<close>

theorem vendorCVE_last_match:
  "ID (vendorCVE metadata) =
     (case filter (\<lambda>r. Contains (RefID r) ''ALT'') (References metadata) of
        [] \<Rightarrow> '''' | r # rs \<Rightarrow> RefID (last (r # rs)))"
  by (simp add: vendorCVE_def vendorCVE_loop_last)

text \<open>
  C2 as stated fails twice. A definition whose canonical vendor identifier is
  \<^verbatim>\<open>ALT-PU-2024-1\<close> gets the record identifier \<^verbatim>\<open>ALT-BR-7\<close> of a later
  reference; and a definition without a canonical vendor identifier gets the identifier of
  its last ALT-branded reference, not of its first.
\<close>

theorem vendorCVE_counterexample:
  "vendorID
       [\<lparr>RefID = ''ALT-PU-2024-1'', RefURL = '''', Source = ''ALTPU''\<rparr>,
        \<lparr>RefID = ''ALT-BR-7'', RefURL = '''', Source = ''BR''\<rparr>] = ''ALT-PU-2024-1''
   \<and> ID (vendorCVE \<lparr>Title = '''', Description = '''',
        References = [\<lparr>RefID = ''ALT-PU-2024-1'', RefURL = '''', Source = ''ALTPU''\<rparr>,
                      \<lparr>RefID = ''ALT-BR-7'', RefURL = '''', Source = ''BR''\<rparr>],
        Advisory = \<lparr>adv_Severity = '''', adv_BDUs = [], adv_CVEs = [], adv_AffectedCPEs = []\<rparr>\<rparr>)
     = ''ALT-BR-7''
   \<and> vendorID
       [\<lparr>RefID = ''ALT-BR-1'', RefURL = '''', Source = ''BR''\<rparr>,
        \<lparr>RefID = ''ALT-BR-2'', RefURL = '''', Source = ''BR''\<rparr>] = ''''
   \<and> ID (vendorCVE \<lparr>Title = '''', Description = '''',
        References = [\<lparr>RefID = ''ALT-BR-1'', RefURL = '''', Source = ''BR''\<rparr>,
                      \<lparr>RefID = ''ALT-BR-2'', RefURL = '''', Source = ''BR''\<rparr>],
        Advisory = \<lparr>adv_Severity = '''', adv_BDUs = [], adv_CVEs = [], adv_AffectedCPEs = []\<rparr>\<rparr>)
     = ''ALT-BR-2''"
  by (simp add: vendorCVE_def)

subsection \<open>The walk over the criteria tree\<close>

lemma Split_nonempty: "Split s sep \<noteq> []"
  by (induction s) (auto split: list.splits)

lemma Split_no_sep: "w \<in> set (Split s sep) \<Longrightarrow> sep \<notin> set w"
  by (induction s arbitrary: w) (auto split: list.splits if_splits)

lemma Join_Split: "Join (Split s sep) sep = s"
proof (induction s)
  case Nil
  show ?case by simp
next
  case (Cons c s)
  obtain w ws where sp: "Split s sep = w # ws"
    using Split_nonempty[of s sep] by (cases "Split s sep") auto
  show ?case using Cons sp by (cases ws) auto
qed

text \<open>The code's \<^const>\<open>Split\<close> computes the split told from left to right.\<close>

lemma split_fields_from_Split:
  "split_fields_from field s sep = (field @ hd (Split s sep)) # tl (Split s sep)"
proof (induction s arbitrary: field)
  case Nil
  show ?case by simp
next
  case (Cons c s)
  obtain w ws where sp: "Split s sep = w # ws"
    using Split_nonempty[of s sep] by (cases "Split s sep") auto
  show ?case using Cons sp by simp
qed

lemma Split_split_fields: "Split s sep = split_fields s sep"
  using Split_nonempty[of s sep] by (simp add: split_fields_def split_fields_from_Split)

lemma split_fields_nonempty: "split_fields s sep \<noteq> []"
  using Split_nonempty[of s sep] by (simp add: Split_split_fields)

lemma split_fields_no_sep: "list_all (\<lambda>w. sep \<notin> set w) (split_fields s sep)"
  using Split_no_sep[of _ s sep] by (auto simp: list_all_iff Split_split_fields[symmetric])

lemma Join_split_fields: "Join (split_fields s sep) sep = s"
  using Join_Split[of s sep] by (simp add: Split_split_fields)

text \<open>
  There is one split of a pattern only: two non-empty lists of fields without the
  separator that join to the same string are the same list.
\<close>

lemma Join_Cons: "ws \<noteq> [] \<Longrightarrow> Join (w # ws) sep = w @ sep # Join ws sep"
  by (cases ws) auto

lemma sep_split_unique:
  "sep \<notin> set w \<Longrightarrow> sep \<notin> set v \<Longrightarrow> w @ sep # x = v @ sep # y \<Longrightarrow> w = v \<and> x = y"
proof (induction w arbitrary: v)
  case Nil
  then show ?case by (cases v) auto
next
  case (Cons a w)
  then show ?case by (cases v) auto
qed

lemma Join_unique:
  "ws \<noteq> [] \<Longrightarrow> vs \<noteq> [] \<Longrightarrow> list_all (\<lambda>w. sep \<notin> set w) ws \<Longrightarrow>
   list_all (\<lambda>w. sep \<notin> set w) vs \<Longrightarrow> Join ws sep = Join vs sep \<Longrightarrow> ws = vs"
proof (induction ws arbitrary: vs)
  case Nil
  then show ?case by simp
next
  case (Cons w ws)
  obtain v vs' where vs: "vs = v # vs'" using Cons.prems(2) by (cases vs) auto
  have nw: "sep \<notin> set w" and nv: "sep \<notin> set v"
    using Cons.prems(3,4) vs by auto
  show ?case
  proof (cases "ws = []")
    case True
    show ?thesis
    proof (cases "vs' = []")
      case True
      then show ?thesis using \<open>ws = []\<close> Cons.prems(5) vs by simp
    next
      case False
      then have "w = v @ sep # Join vs' sep"
        using \<open>ws = []\<close> Cons.prems(5) vs by (simp add: Join_Cons)
      then show ?thesis using nw by auto
    qed
  next
    case False
    show ?thesis
    proof (cases "vs' = []")
      case True
      then have "w @ sep # Join ws sep = v"
        using \<open>ws \<noteq> []\<close> Cons.prems(5) vs by (simp add: Join_Cons)
      then show ?thesis using nv by auto
    next
      case vne: False
      have eq: "w @ sep # Join ws sep = v @ sep # Join vs' sep"
        using False vne Cons.prems(5) vs by (simp add: Join_Cons)
      have "w = v \<and> Join ws sep = Join vs' sep"
        using sep_split_unique[OF nw nv eq] .
      moreover have "ws = vs'"
        using Cons.IH[of vs'] False vne Cons.prems(3,4) vs calculation by simp
      ultimately show ?thesis using vs by simp
    qed
  qed
qed

lemma fold_own:
  "fold (\<lambda>c packages. case tests (TestRef c) of None \<Rightarrow> packages
                       | Some t \<Rightarrow> packages @ [g t]) cs acc
   = acc @ concat (map (\<lambda>c. case tests (TestRef c) of None \<Rightarrow> [] | Some t \<Rightarrow> [g t]) cs)"
  by (induction cs arbitrary: acc) (auto split: option.splits)

lemma fold_children:
  "fold (\<lambda>c packages. if f c \<noteq> [] then packages @ f c else packages) cs acc
   = acc @ concat (map f cs)"
  by (induction cs arbitrary: acc) auto

lemma pkg_of_eq:
  "pkg_of t = \<lparr>pkg_Name = rt_Name t, pkg_FixedVersion = rt_FixedVersion t,
               pkg_Arches = (if rt_Arch t = '''' then [] else split_fields (rt_Arch t) CHR ''|'')\<rparr>"
  by (simp add: pkg_of_def Split_split_fields)

lemma walkCriterion_unfold:
  "walkCriterion (Criteria criterions criterias) tests =
     concat (map (\<lambda>c. case tests (TestRef c) of None \<Rightarrow> [] | Some t \<Rightarrow> [pkg_of t]) criterions)
     @ concat (map (\<lambda>c. walkCriterion c tests) criterias)"
  by (cases "criterias = []") (simp_all add: Let_def fold_own fold_children)

lemma walkCriterion_eq_leaves: "walkCriterion cri tests = leaves cri tests"
proof (induction cri)
  case (Criteria criterions criterias)
  have kids: "map (\<lambda>c. walkCriterion c tests) criterias = map (\<lambda>c. leaves c tests) criterias"
    using Criteria.IH by simp
  show ?case
    unfolding walkCriterion_unfold kids
    by (simp add: pkg_of_eq cong: option.case_cong)
qed

text \<open>
  C9. \<^const>\<open>walkCriterion\<close> returns the union over the reachable leaves of the tree
  as \<^const>\<open>leaves\<close> defines it: a node's own resolvable test references first, in
  order, the unresolvable ones skipped, then the results of the children in child order,
  recursively. The architecture list of each fact is empty for an empty pattern, and for
  a non-empty pattern it is the split of the pattern at \<^verbatim>\<open>|\<close>: the list
  \<^const>\<open>split_fields\<close> gives, which is not empty, has no \<^verbatim>\<open>|\<close> in any of
  its fields, and joined with \<^verbatim>\<open>|\<close> is the pattern (by \<open>Join_unique\<close> the
  only such list).
\<close>

theorem walkCriterion_leaves:
  "walkCriterion cri tests = leaves cri tests
   \<and> split_fields s sep \<noteq> []
   \<and> list_all (\<lambda>w. sep \<notin> set w) (split_fields s sep)
   \<and> Join (split_fields s sep) sep = s"
  by (simp add: walkCriterion_eq_leaves split_fields_nonempty split_fields_no_sep Join_split_fields)

subsection \<open>Resolving test references\<close>




text \<open>
  The state reference of a test with an empty object reference is never looked up: such a
  test resolves to the all-empty fact also when the state table lacks its state.
\<close>

lemma followTestRefs_empty_object:
  "followTestRefs \<lparr>test_ID = ''t1'', ObjectRef = '''', StateRef = ''s1''\<rparr> Map.empty Map.empty
     = (zero_resolvedTest, None)"
  by (simp add: followTestRefs_def)

subsection \<open>The union of two platform lists\<close>

lemma Merge_loop_set:
  "set (fold (\<lambda>s merged. if s \<in> set merged then merged else merged @ [s]) xs acc) = set acc \<union> set xs"
  by (induction xs arbitrary: acc) auto

lemma Merge_loop_distinct:
  "distinct acc \<Longrightarrow>
   distinct (fold (\<lambda>s merged. if s \<in> set merged then merged else merged @ [s]) xs acc)"
  by (induction xs arbitrary: acc) auto

lemma Merge_loop_subseq:
  "\<exists>ys. fold (\<lambda>s merged. if s \<in> set merged then merged else merged @ [s]) xs acc = acc @ ys
        \<and> subseq ys xs"
proof (induction xs arbitrary: acc)
  case Nil
  show ?case by simp
next
  case (Cons x xs)
  show ?case
  proof (cases "x \<in> set acc")
    case True
    then show ?thesis using Cons[of acc] by auto
  next
    case False
    obtain ys where
      "fold (\<lambda>s merged. if s \<in> set merged then merged else merged @ [s]) xs (acc @ [x])
         = (acc @ [x]) @ ys"
      "subseq ys xs"
      using Cons[of "acc @ [x]"] by blast
    then show ?thesis using False by (auto intro!: exI[of _ "x # ys"])
  qed
qed

lemma Merge_loop_absorb:
  "set xs \<subseteq> set acc \<Longrightarrow>
   fold (\<lambda>s merged. if s \<in> set merged then merged else merged @ [s]) xs acc = acc"
  by (induction xs arbitrary: acc) auto

lemma Merge_loop_id:
  "distinct (acc @ xs) \<Longrightarrow>
   fold (\<lambda>s merged. if s \<in> set merged then merged else merged @ [s]) xs acc = acc @ xs"
  by (induction xs arbitrary: acc) auto

lemma Merge_set: "set (Merge a b) = set a \<union> set b"
  by (simp add: Merge_def Merge_loop_set)

lemma Merge_distinct: "distinct (Merge a b)"
  by (simp add: Merge_def Merge_loop_distinct)

lemma Merge_subseq: "subseq (Merge a b) (a @ b)"
  using Merge_loop_subseq[of "a @ b" "[]"] by (auto simp: Merge_def)

lemma Merge_idem: "Merge (Merge a b) b = Merge a b"
proof -
  have d: "distinct (Merge a b)" by (rule Merge_distinct)
  have s: "set b \<subseteq> set (Merge a b)" by (simp add: Merge_set)
  have "Merge (Merge a b) b =
          fold (\<lambda>s merged. if s \<in> set merged then merged else merged @ [s]) b
            (fold (\<lambda>s merged. if s \<in> set merged then merged else merged @ [s]) (Merge a b) [])"
    by (simp add: Merge_def)
  also have "fold (\<lambda>s merged. if s \<in> set merged then merged else merged @ [s]) (Merge a b) []
               = Merge a b"
    using Merge_loop_id[of "[]" "Merge a b"] d by simp
  also have "fold (\<lambda>s merged. if s \<in> set merged then merged else merged @ [s]) b (Merge a b)
               = Merge a b"
    using s by (rule Merge_loop_absorb)
  finally show ?thesis .
qed

subsection \<open>Merging: one bucket\<close>

lemma AdvisorySpecial_update: "(r::AdvisorySpecial)\<lparr>Entries := v\<rparr> = \<lparr>Entries = v\<rparr>"
  by (cases r) simp

lemma mergeEntries_loop_eq:
  "mergeEntries_loop olds e found =
     (map (\<lambda>x. if same_variant x e
                then x\<lparr>AffectedCPEList := Merge (AffectedCPEList x) (AffectedCPEList e)\<rparr>
                else x) olds,
      found \<or> list_ex (\<lambda>x. same_variant x e) olds)"
  by (induction olds arbitrary: found) (auto simp: same_variant_def split: prod.splits)

lemma map_no_variant:
  "\<not> list_ex (\<lambda>x. same_variant x e) olds \<Longrightarrow>
   map (\<lambda>x. if same_variant x e then f x else x) olds = olds"
  by (induction olds) auto

lemma list_ex_variant_map:
  "list_ex (\<lambda>x. same_variant x e)
     (map (\<lambda>x. if same_variant x e then x\<lparr>AffectedCPEList := g x\<rparr> else x) olds)
   = list_ex (\<lambda>x. same_variant x e) olds"
  by (induction olds) (auto simp: same_variant_def)

lemma mergeAdvisories_step_eq:
  "mergeAdvisories_step (bkt, d) advisories =
     AList.update bkt (merged_bucket (map_of advisories bkt) (Entry d)) advisories"
  by (auto simp: mergeAdvisories_step_def merged_bucket_def mergeEntries_loop_eq Let_def
                 AdvisorySpecial_update map_no_variant
           split: option.splits)

lemma map_of_step:
  "map_of (mergeAdvisories_step (bkt, d) advisories) k =
     (if k = bkt then Some (merged_bucket (map_of advisories bkt) (Entry d)) else map_of advisories k)"
  by (simp add: mergeAdvisories_step_eq update_conv')

lemma merged_bucket_idem:
  assumes "list_ex (\<lambda>x. same_variant x e) (Entries old)"
  shows "merged_bucket (Some (merged_bucket (Some old) e)) e = merged_bucket (Some old) e"
  using assms
  by (simp add: merged_bucket_def list_ex_variant_map Merge_idem)

lemma set_update_subset: "set (AList.update k v al) \<subseteq> insert (k, v) (set al)"
  by (induction al) auto

lemma variants_distinct_update:
  assumes "variants_distinct advisories"
    and "distinct (map (\<lambda>e. (FixedVersion e, Arches e)) (Entries v))"
  shows "variants_distinct (AList.update k v advisories)"
  using assms set_update_subset[of k v advisories]
  by (auto simp: variants_distinct_def list_all_iff)

lemma map_of_variants_distinct:
  "variants_distinct advisories \<Longrightarrow> map_of advisories k = Some a \<Longrightarrow>
   distinct (map (\<lambda>e. (FixedVersion e, Arches e)) (Entries a))"
  by (auto simp: variants_distinct_def list_all_iff dest!: map_of_SomeD)

lemma variant_keys_map:
  "map (\<lambda>e. (FixedVersion e, Arches e))
     (map (\<lambda>x. if same_variant x e then x\<lparr>AffectedCPEList := g x\<rparr> else x) olds)
   = map (\<lambda>e. (FixedVersion e, Arches e)) olds"
  by (induction olds) auto

lemma merged_bucket_distinct:
  assumes "\<And>old. held = Some old \<Longrightarrow> distinct (map (\<lambda>e. (FixedVersion e, Arches e)) (Entries old))"
  shows "distinct (map (\<lambda>e. (FixedVersion e, Arches e)) (Entries (merged_bucket held e)))"
proof (cases held)
  case None
  then show ?thesis by (simp add: merged_bucket_def)
next
  case (Some old)
  have d: "distinct (map (\<lambda>e. (FixedVersion e, Arches e)) (Entries old))"
    using assms Some by simp
  show ?thesis
  proof (cases "list_ex (\<lambda>x. same_variant x e) (Entries old)")
    case True
    then show ?thesis using Some d by (simp add: merged_bucket_def variant_keys_map del: map_map)
  next
    case False
    then have "(FixedVersion e, Arches e) \<notin> set (map (\<lambda>e. (FixedVersion e, Arches e)) (Entries old))"
      by (auto simp: list_ex_iff same_variant_def)
    then show ?thesis using Some d False by (simp add: merged_bucket_def)
  qed
qed

lemma variants_distinct_step:
  "variants_distinct advisories \<Longrightarrow> variants_distinct (mergeAdvisories_step kv advisories)"
proof -
  assume inv: "variants_distinct advisories"
  obtain bkt d where kv: "kv = (bkt, d)" by (cases kv)
  have "distinct (map (\<lambda>e. (FixedVersion e, Arches e))
          (Entries (merged_bucket (map_of advisories bkt) (Entry d))))"
    by (rule merged_bucket_distinct) (rule map_of_variants_distinct[OF inv])
  then show ?thesis
    unfolding kv mergeAdvisories_step_eq by (rule variants_distinct_update[OF inv])
qed

lemma variants_distinct_fold:
  "variants_distinct advisories \<Longrightarrow> variants_distinct (fold mergeAdvisories_step defs advisories)"
  by (induction defs arbitrary: advisories) (auto intro: variants_distinct_step)

lemma map_of_fold_step_other:
  "k \<notin> fst ` set defs \<Longrightarrow> map_of (fold mergeAdvisories_step defs advisories) k = map_of advisories k"
proof (induction defs arbitrary: advisories)
  case Nil
  show ?case by simp
next
  case (Cons kv defs)
  obtain bkt d where kv: "kv = (bkt, d)" by (cases kv)
  show ?case using Cons kv by (simp add: map_of_step)
qed

text \<open>
  The result of \<^const>\<open>mergeAdvisories\<close>, read as a map, depends on
  \<open>defs\<close> only as a map: whichever order the loop visits the pairs in, each bucket
  of \<open>defs\<close> is merged once and every other bucket is left alone.
\<close>

lemma map_of_mergeAdvisories:
  "distinct (map fst defs) \<Longrightarrow>
   map_of (mergeAdvisories advisories defs) k =
     (case map_of defs k of
        None \<Rightarrow> map_of advisories k
      | Some d \<Rightarrow> Some (merged_bucket (map_of advisories k) (Entry d)))"
  unfolding mergeAdvisories_def
proof (induction defs arbitrary: advisories)
  case Nil
  show ?case by simp
next
  case (Cons kv defs)
  obtain bkt d where kv: "kv = (bkt, d)" by (cases kv)
  have notin: "bkt \<notin> fst ` set defs" and dist: "distinct (map fst defs)"
    using Cons.prems kv by auto
  show ?case
  proof (cases "k = bkt")
    case True
    then show ?thesis
      using kv notin by (simp add: map_of_fold_step_other map_of_step)
  next
    case False
    then show ?thesis
      using kv Cons.IH[OF dist, of "mergeAdvisories_step (bkt, d) advisories"]
      by (simp add: map_of_step cong: option.case_cong)
  qed
qed

lemma update_twice: "AList.update k v (AList.update k v al) = AList.update k v al"
  by (induction al) auto

lemma merged_bucket_length:
  "list_ex (\<lambda>x. same_variant x e) (Entries old) \<Longrightarrow>
   length (Entries (merged_bucket (Some old) e)) = length (Entries old)"
  by (simp add: merged_bucket_def)

lemma merged_bucket_append:
  "\<not> list_ex (\<lambda>x. same_variant x e) (Entries old) \<Longrightarrow>
   Entries (merged_bucket (Some old) e) = Entries old @ [e]"
  by (simp add: merged_bucket_def)

lemma mergeAdvisories_twice:
  assumes "map_of advisories bkt = Some old"
    and "list_ex (\<lambda>x. same_variant x (Entry d)) (Entries old)"
  shows "mergeAdvisories (mergeAdvisories advisories [(bkt, d)]) [(bkt, d)]
           = mergeAdvisories advisories [(bkt, d)]"
  using assms
  by (simp add: mergeAdvisories_def mergeAdvisories_step_eq update_conv' merged_bucket_idem update_twice)

text \<open>
  C6. \<open>defs\<close> is a Go map, so its keys are distinct. When \<open>defs\<close> holds an
  entry for a bucket that the running map already has, the bucket afterwards is
  \<^const>\<open>merged_bucket\<close> of what it was and the incoming entry: if it held an entry
  with the fixed version and the arches (as ordered lists) of the incoming one, the number
  of entries is unchanged and each such entry's platform list is
  \<^const>\<open>Merge\<close> of the two lists; otherwise the incoming entry is appended. In the
  first case merging the same entry once more changes nothing. \<^const>\<open>Merge\<close> is
  duplicate-free, holds exactly the strings of the two lists, and keeps their order (it is
  a subsequence of the first list followed by the second).
\<close>

theorem mergeAdvisories_existing_bucket:
  assumes "distinct (map fst defs)"
    and "map_of defs bkt = Some d"
    and "map_of advisories bkt = Some old"
  shows "map_of (mergeAdvisories advisories defs) bkt = Some (merged_bucket (Some old) (Entry d))
         \<and> (list_ex (\<lambda>x. same_variant x (Entry d)) (Entries old) \<longrightarrow>
              length (Entries (merged_bucket (Some old) (Entry d))) = length (Entries old)
              \<and> mergeAdvisories (mergeAdvisories advisories [(bkt, d)]) [(bkt, d)]
                  = mergeAdvisories advisories [(bkt, d)])
         \<and> (\<not> list_ex (\<lambda>x. same_variant x (Entry d)) (Entries old) \<longrightarrow>
              Entries (merged_bucket (Some old) (Entry d)) = Entries old @ [Entry d])
         \<and> distinct (Merge a b) \<and> set (Merge a b) = set a \<union> set b \<and> subseq (Merge a b) (a @ b)"
  using assms
  by (simp add: map_of_mergeAdvisories merged_bucket_length merged_bucket_append
        mergeAdvisories_twice Merge_distinct Merge_set Merge_subseq)

text \<open>
  The theorem at the bucket of the specification's example: one entry for
  \<^verbatim>\<open>1.2-3\<close> on \<^verbatim>\<open>x86_64\<close>, merged with an entry of the same version
  and arches.
\<close>

theorem mergeAdvisories_existing_bucket_witness:
  "map_of (mergeAdvisories
       [(\<lparr>packageName = ''libfoo'', vulnerabilityID = ''ALT-PU-2024-001''\<rparr>,
         \<lparr>Entries = [\<lparr>CVEs = [], FixedVersion = ''1.2-3'',
                       AffectedCPEList = [''cpe:/o:example:1''], Arches = [''x86_64'']\<rparr>]\<rparr>)]
       [(\<lparr>packageName = ''libfoo'', vulnerabilityID = ''ALT-PU-2024-001''\<rparr>,
         \<lparr>Entry = \<lparr>CVEs = [], FixedVersion = ''1.2-3'',
                    AffectedCPEList = [''cpe:/o:example:1'', ''cpe:/o:example:2''],
                    Arches = [''x86_64'']\<rparr>\<rparr>)])
     \<lparr>packageName = ''libfoo'', vulnerabilityID = ''ALT-PU-2024-001''\<rparr>
   = Some \<lparr>Entries = [\<lparr>CVEs = [], FixedVersion = ''1.2-3'',
                        AffectedCPEList = [''cpe:/o:example:1'', ''cpe:/o:example:2''],
                        Arches = [''x86_64'']\<rparr>]\<rparr>"
proof -
  let ?b = "\<lparr>packageName = ''libfoo'', vulnerabilityID = ''ALT-PU-2024-001''\<rparr>"
  let ?old = "\<lparr>Entries = [\<lparr>CVEs = [], FixedVersion = ''1.2-3'',
                       AffectedCPEList = [''cpe:/o:example:1''], Arches = [''x86_64'']\<rparr>]\<rparr>"
  let ?d = "\<lparr>Entry = \<lparr>CVEs = [], FixedVersion = ''1.2-3'',
                    AffectedCPEList = [''cpe:/o:example:1'', ''cpe:/o:example:2''],
                    Arches = [''x86_64'']\<rparr>\<rparr>"
  have h1: "distinct (map fst [(?b, ?d)])" by simp
  have h2: "map_of [(?b, ?d)] ?b = Some ?d" by simp
  have h3: "map_of [(?b, ?old)] ?b = Some ?old" by simp
  show ?thesis
    using mergeAdvisories_existing_bucket[OF h1 h2 h3]
    by (simp add: merged_bucket_def same_variant_def Merge_def)
qed

subsection \<open>Merging: the invariant\<close>

text \<open>
  C7 (as the code has it). \<^const>\<open>mergeAdvisories\<close> maintains
  \<^const>\<open>variants_distinct\<close>: within the entry list of a bucket no two entries have
  an equal fixed version together with arch lists that are equal as ordered lists. The
  empty map, from which every run starts, has the property.
\<close>

theorem mergeAdvisories_variants_distinct:
  "variants_distinct advisories \<Longrightarrow> variants_distinct (mergeAdvisories advisories defs)"
  unfolding mergeAdvisories_def by (rule variants_distinct_fold)

text \<open>The empty map has the property, and so has the map after the first merge into it.\<close>

theorem mergeAdvisories_variants_distinct_witness:
  "variants_distinct []
   \<and> variants_distinct (mergeAdvisories []
        [(\<lparr>packageName = ''libfoo'', vulnerabilityID = ''ALT-PU-2024-001''\<rparr>,
          \<lparr>Entry = \<lparr>CVEs = [], FixedVersion = ''1.2-3'',
                     AffectedCPEList = [''cpe:/o:example:1''], Arches = [''x86_64'']\<rparr>\<rparr>)])"
proof -
  have h: "variants_distinct []" by (simp add: variants_distinct_def)
  show ?thesis using h mergeAdvisories_variants_distinct[OF h] by simp
qed

text \<open>
  C7 as stated fails: two entries of one bucket with the same fixed version whose arch
  lists are permutations of each other are kept side by side.
\<close>

theorem mergeAdvisories_arch_set_counterexample:
  "mergeAdvisories
     (mergeAdvisories []
        [(\<lparr>packageName = ''libfoo'', vulnerabilityID = ''ALT-PU-2024-001''\<rparr>,
          \<lparr>Entry = \<lparr>CVEs = [], FixedVersion = ''1.2-3'', AffectedCPEList = [''cpe:/o:alt:1''],
                     Arches = [''x86_64'', ''i586'']\<rparr>\<rparr>)])
     [(\<lparr>packageName = ''libfoo'', vulnerabilityID = ''ALT-PU-2024-001''\<rparr>,
       \<lparr>Entry = \<lparr>CVEs = [], FixedVersion = ''1.2-3'', AffectedCPEList = [''cpe:/o:alt:2''],
                  Arches = [''i586'', ''x86_64'']\<rparr>\<rparr>)]
   = [(\<lparr>packageName = ''libfoo'', vulnerabilityID = ''ALT-PU-2024-001''\<rparr>,
       \<lparr>Entries = [\<lparr>CVEs = [], FixedVersion = ''1.2-3'', AffectedCPEList = [''cpe:/o:alt:1''],
                     Arches = [''x86_64'', ''i586'']\<rparr>,
                   \<lparr>CVEs = [], FixedVersion = ''1.2-3'', AffectedCPEList = [''cpe:/o:alt:2''],
                     Arches = [''i586'', ''x86_64'']\<rparr>]\<rparr>)]
   \<and> set [''x86_64'', ''i586''] = set [''i586'', ''x86_64'']"
  by (simp add: mergeAdvisories_def mergeAdvisories_step_def insert_commute)

subsection \<open>Building the entries of a file\<close>

lemma toReferences_eq: "toReferences refs = map RefURL refs"
proof -
  have "fold (\<lambda>r data. data @ [RefURL r]) refs acc = acc @ map RefURL refs" for acc
    by (induction refs arbitrary: acc) auto
  then show ?thesis by (simp add: toReferences_def)
qed

lemma fold_bdus:
  "fold (\<lambda>bdu (cveEntries, vendorCVEs). (cveEntries @ [f bdu], vendorCVEs @ [g bdu])) bdus (ce, vc)
   = (ce @ map f bdus, vc @ map g bdus)"
  by (induction bdus arbitrary: ce vc) auto

lemma fold_cves:
  "fold (\<lambda>cve cveEntries. cveEntries @ [f cve]) cves ce = ce @ map f cves"
  by (induction cves arbitrary: ce) auto

lemma parseOVAL_pkg_eq:
  "parseOVAL_pkg advisory affectedPkg (defs, vcs) =
     (if vendorID (References (def_Metadata advisory)) \<noteq> ''''
      then AList.update
             \<lparr>packageName = pkg_Name affectedPkg,
              vulnerabilityID = vendorID (References (def_Metadata advisory))\<rparr>
             \<lparr>Entry = \<lparr>CVEs = vulnerability_records advisory,
                        FixedVersion = pkg_FixedVersion affectedPkg,
                        AffectedCPEList = adv_AffectedCPEs (Advisory (def_Metadata advisory)),
                        Arches = pkg_Arches affectedPkg\<rparr>\<rparr>
             defs
      else fold (\<lambda>cve defs.
                   AList.update \<lparr>packageName = pkg_Name affectedPkg, vulnerabilityID = ID cve\<rparr>
                     \<lparr>Entry = \<lparr>CVEs = [\<lparr>ID = '''', Severity = Severity cve\<rparr>],
                                FixedVersion = pkg_FixedVersion affectedPkg,
                                AffectedCPEList = adv_AffectedCPEs (Advisory (def_Metadata advisory)),
                                Arches = pkg_Arches affectedPkg\<rparr>\<rparr>
                     defs)
                (vulnerability_records advisory) defs,
      vcs @ catalog_records advisory)"
  by (simp add: parseOVAL_pkg_def Let_def fold_bdus fold_cves toReferences_eq
        catalog_records_def vulnerability_records_def)

lemma sev_High: "severityFromImpact ''High'' = SeverityHigh"
  by code_simp

lemma ex_walk2: "walkCriterion (def_Criteria (ex_definition [''t1'', ''t2''])) ex_tests =
   [\<lparr>pkg_Name = ''libfoo'', pkg_FixedVersion = ''1.2-4'', pkg_Arches = [''x86_64'']\<rparr>,
    \<lparr>pkg_Name = ''libfoo'', pkg_FixedVersion = ''1.2-5'', pkg_Arches = [''i586'']\<rparr>]"
  by (simp add: ex_definition_def ex_tests_def pkg_of_def)

lemma ex_unaffected: "\<not> Contains (def_ID (ex_definition refs)) ''unaffected''"
  by (simp add: ex_definition_def)

lemma ex_vendorID: "vendorID (References (def_Metadata (ex_definition refs))) = ''ALT-PU-2024-1001''"
  by (simp add: ex_definition_def)

lemma ex_vulnerability_records:
  "vulnerability_records (ex_definition refs) = [\<lparr>ID = ''ALT-PU-2024-1001'', Severity = SeverityHigh\<rparr>]"
  by (simp add: vulnerability_records_def ex_definition_def vendorCVE_def sev_High)


lemma snd_parseOVAL_pkg:
  "snd (parseOVAL_pkg advisory affectedPkg st) = snd st @ catalog_records advisory"
  by (cases st) (simp add: parseOVAL_pkg_eq)

lemma snd_fold_parseOVAL_pkg:
  "snd (fold (parseOVAL_pkg advisory) pkgs st)
   = snd st @ concat (replicate (length pkgs) (catalog_records advisory))"
  by (induction pkgs arbitrary: st) (simp_all add: snd_parseOVAL_pkg replicate_app_Cons_same)

text \<open>
  C3 (as the code has it). A definition that is not skipped appends its catalog records,
  the vendor's own and one for each bulletin, once for every affected-package fact that
  its criteria tree yields: a definition with \<open>n\<close> facts appends \<open>n\<close> copies of
  them, and a definition without facts appends nothing. A skipped definition appends
  nothing. The CVE cross-references add no record.
\<close>

theorem parseOVAL_definition_catalog:
  "snd (parseOVAL_definition tests advisory st) =
     snd st @
     (if Contains (def_ID advisory) ''unaffected'' then []
      else concat (replicate (length (walkCriterion (def_Criteria advisory) tests))
                     (catalog_records advisory)))"
  by (simp add: parseOVAL_definition_def snd_fold_parseOVAL_pkg)

text \<open>
  C3 as stated fails: a definition without bulletins whose tree yields two facts appends
  two records, not one, and the same definition with an empty tree appends none.
\<close>

theorem parseOVAL_catalog_counterexample:
  "\<not> Contains (def_ID (ex_definition [''t1'', ''t2''])) ''unaffected''
   \<and> adv_BDUs (Advisory (def_Metadata (ex_definition [''t1'', ''t2'']))) = []
   \<and> snd (parseOVAL_definition ex_tests (ex_definition [''t1'', ''t2'']) ([], []))
       = [ex_record, ex_record]
   \<and> \<not> Contains (def_ID (ex_definition [])) ''unaffected''
   \<and> snd (parseOVAL_definition ex_tests (ex_definition []) ([], [])) = []"
  by (simp add: parseOVAL_definition_def parseOVAL_pkg_def ex_walk2 ex_unaffected Let_def)
     (simp add: ex_definition_def ex_record_def vendorCVE_def toReferences_def sev_High)

text \<open>
  One run of the loop body for a definition with a canonical vendor identifier: the entry
  of the fact takes the place of whatever its bucket held, and every other bucket is left
  as it was.
\<close>

lemma parseOVAL_pkg_bucket:
  assumes "vendorID (References (def_Metadata advisory)) \<noteq> ''''"
  shows "map_of (fst (parseOVAL_pkg advisory affectedPkg st)) bkt =
           (if bkt = \<lparr>packageName = pkg_Name affectedPkg,
                      vulnerabilityID = vendorID (References (def_Metadata advisory))\<rparr>
            then Some \<lparr>Entry = \<lparr>CVEs = vulnerability_records advisory,
                                FixedVersion = pkg_FixedVersion affectedPkg,
                                AffectedCPEList = adv_AffectedCPEs (Advisory (def_Metadata advisory)),
                                Arches = pkg_Arches affectedPkg\<rparr>\<rparr>
            else map_of (fst st) bkt)"
  using assms by (cases st) (simp add: parseOVAL_pkg_eq update_conv')


lemma map_of_fold_update:
  "map_of (fold (\<lambda>kv. AList.update (fst kv) (snd kv)) kvs al) = map_of al ++ map_of (rev kvs)"
proof (induction kvs arbitrary: al)
  case Nil
  show ?case by simp
next
  case (Cons kv kvs)
  have "map_of (fold (\<lambda>kv. AList.update (fst kv) (snd kv)) (kv # kvs) al)
          = map_of (AList.update (fst kv) (snd kv) al) ++ map_of (rev kvs)"
    using Cons[of "AList.update (fst kv) (snd kv) al"] by simp
  also have "\<dots> = (map_of al ++ [fst kv \<mapsto> snd kv]) ++ map_of (rev kvs)"
    by (simp add: update_conv')
  also have "\<dots> = map_of al ++ map_of (rev (kv # kvs))"
    by (cases kv) (simp add: map_add_assoc)
  finally show ?case .
qed

lemma distinct_fold_update:
  "distinct (map fst al) \<Longrightarrow>
   distinct (map fst (fold (\<lambda>kv. AList.update (fst kv) (snd kv)) kvs al))"
  by (induction kvs arbitrary: al) (simp_all add: distinct_update)

lemma fold_update_map:
  "fold (\<lambda>kv. AList.update (fst kv) (snd kv)) (map (\<lambda>x. (k x, v x)) xs) al
   = fold (\<lambda>x. AList.update (k x) (v x)) xs al"
  by (induction xs arbitrary: al) auto

lemma fst_parseOVAL_pkg:
  "fst (parseOVAL_pkg advisory p st)
   = fold (\<lambda>kv. AList.update (fst kv) (snd kv)) (emitted_for_fact advisory p) (fst st)"
  by (cases st) (simp add: parseOVAL_pkg_eq emitted_for_fact_def fold_update_map)

lemma fst_fold_emit:
  assumes "\<And>x st. fst (F x st) = fold U (E x) (fst st)"
  shows "fst (fold F xs st) = fold U (concat (map E xs)) (fst st)"
  by (induction xs arbitrary: st) (simp_all add: assms)

lemma fst_parseOVAL_definition:
  "fst (parseOVAL_definition tests advisory st)
   = fold (\<lambda>kv. AList.update (fst kv) (snd kv)) (emitted_for_definition tests advisory) (fst st)"
  by (simp add: parseOVAL_definition_def emitted_for_definition_def
        fst_fold_emit[where F = "parseOVAL_pkg advisory", OF fst_parseOVAL_pkg])

lemma fst_fold_parseOVAL_definition:
  "fst (fold (parseOVAL_definition tests) definitions st)
   = fold (\<lambda>kv. AList.update (fst kv) (snd kv)) (emitted_for_file tests definitions) (fst st)"
  unfolding emitted_for_file_def
  by (rule fst_fold_emit) (rule fst_parseOVAL_definition)

lemma ex_resolve_dir: "resolveTests ex_dir = Inr ex_tests"
  by (simp add: resolveTests_def parseObjects_def parseStates_def parseTests_def ex_dir_def
        followTestRefs_def zero_resolvedTest_def ex_tests_def)

lemma ex_emitted:
  "emitted_for_file ex_tests [ex_definition [''t1'', ''t2'']] =
     [(\<lparr>packageName = ''libfoo'', vulnerabilityID = ''ALT-PU-2024-1001''\<rparr>,
       \<lparr>Entry = \<lparr>CVEs = [\<lparr>ID = ''ALT-PU-2024-1001'', Severity = SeverityHigh\<rparr>],
                  FixedVersion = ''1.2-4'',
                  AffectedCPEList = [''cpe:/o:alt:workstation:10''],
                  Arches = [''x86_64'']\<rparr>\<rparr>),
      (\<lparr>packageName = ''libfoo'', vulnerabilityID = ''ALT-PU-2024-1001''\<rparr>,
       \<lparr>Entry = \<lparr>CVEs = [\<lparr>ID = ''ALT-PU-2024-1001'', Severity = SeverityHigh\<rparr>],
                  FixedVersion = ''1.2-5'',
                  AffectedCPEList = [''cpe:/o:alt:workstation:10''],
                  Arches = [''i586'']\<rparr>\<rparr>)]"
  by (simp add: emitted_for_file_def emitted_for_definition_def ex_unaffected ex_walk2
        emitted_for_fact_def ex_vendorID ex_vulnerability_records)
     (simp add: ex_definition_def)

text \<open>
  C10 (as the code has it). The per-file result of \<^const>\<open>parseOVAL\<close> is a map with
  one entry for each bucket. For a file whose references resolve and whose definitions
  decode, it holds, under each bucket, the entry emitted last for that bucket by
  \<^const>\<open>emitted_for_file\<close>, and no bucket else: every affected-package fact of a
  definition with a canonical vendor identifier emits one entry under the bucket of the
  package name and that identifier, and when two facts or two definitions of the file
  emit under the same bucket, the later entry replaces the earlier one.
\<close>

theorem parseOVAL_last_emitted:
  assumes "resolveTests dir = Inr tests"
    and "parseDefinitions dir = Inr definitions"
  shows "case fst (parseOVAL dir vcs) of
           Inl err \<Rightarrow> False
         | Inr defs \<Rightarrow>
             distinct (map fst defs)
             \<and> map_of defs = last_emitted (emitted_for_file tests definitions)"
proof -
  have "fst (parseOVAL dir vcs) = Inr (fst (fold (parseOVAL_definition tests) definitions ([], vcs)))"
    using assms by (simp add: parseOVAL_def split: prod.splits)
  then show ?thesis
    by (simp add: fst_fold_parseOVAL_definition map_of_fold_update distinct_fold_update
          last_emitted_def)
qed

text \<open>
  The theorem at \<^const>\<open>ex_dir\<close>, whose definition has two facts for one package: the
  bucket holds the entry of the second fact.
\<close>

theorem parseOVAL_last_emitted_witness:
  "resolveTests ex_dir = Inr ex_tests
   \<and> parseDefinitions ex_dir = Inr [ex_definition [''t1'', ''t2'']]
   \<and> (case fst (parseOVAL ex_dir []) of
         Inl err \<Rightarrow> False
       | Inr defs \<Rightarrow>
           map_of defs \<lparr>packageName = ''libfoo'', vulnerabilityID = ''ALT-PU-2024-1001''\<rparr>
           = Some \<lparr>Entry = \<lparr>CVEs = [\<lparr>ID = ''ALT-PU-2024-1001'', Severity = SeverityHigh\<rparr>],
                              FixedVersion = ''1.2-5'',
                              AffectedCPEList = [''cpe:/o:alt:workstation:10''],
                              Arches = [''i586'']\<rparr>\<rparr>)"
proof -
  have h1: "resolveTests ex_dir = Inr ex_tests" by (rule ex_resolve_dir)
  have h2: "parseDefinitions ex_dir = Inr [ex_definition [''t1'', ''t2'']]"
    by (simp add: parseDefinitions_def ex_dir_def)
  show ?thesis
    using h1 h2 parseOVAL_last_emitted[OF h1 h2, of "[]"]
    by (auto simp: last_emitted_def ex_emitted split: sum.splits)
qed

text \<open>
  C10 as stated fails: of two facts of one definition for the same package, only the
  entry of the later one is in the per-file result.
\<close>

theorem parseOVAL_same_bucket_counterexample:
  "walkCriterion (def_Criteria (ex_definition [''t1'', ''t2''])) ex_tests =
     [\<lparr>pkg_Name = ''libfoo'', pkg_FixedVersion = ''1.2-4'', pkg_Arches = [''x86_64'']\<rparr>,
      \<lparr>pkg_Name = ''libfoo'', pkg_FixedVersion = ''1.2-5'', pkg_Arches = [''i586'']\<rparr>]
   \<and> fst (parseOVAL_definition ex_tests (ex_definition [''t1'', ''t2'']) ([], [])) =
       [(\<lparr>packageName = ''libfoo'', vulnerabilityID = ''ALT-PU-2024-1001''\<rparr>,
         \<lparr>Entry = \<lparr>CVEs = [\<lparr>ID = ''ALT-PU-2024-1001'', Severity = SeverityHigh\<rparr>],
                    FixedVersion = ''1.2-5'',
                    AffectedCPEList = [''cpe:/o:alt:workstation:10''],
                    Arches = [''i586'']\<rparr>\<rparr>)]"
  by (simp add: parseOVAL_definition_def ex_unaffected ex_walk2 parseOVAL_pkg_eq ex_vendorID
        ex_vulnerability_records)
     (simp add: ex_definition_def)

subsection \<open>The query\<close>

lemma contains_set: "contains lst val = (val \<in> set lst)"
  by (induction lst) auto

lemma fold_Get_cve:
  "fold (Get_cve vulnID entry) cves advisories =
     advisories @ map (\<lambda>cve.
                         \<lparr>VulnerabilityID = (if HasPrefix vulnID ''CVE-'' then vulnID else ID cve),
                          VendorIDs = (if HasPrefix vulnID ''CVE-'' then [] else [vulnID]),
                          a_Severity = Severity cve,
                          a_FixedVersion = FixedVersion entry,
                          a_Arches = Arches entry\<rparr>) cves"
  by (induction cves arbitrary: advisories) (auto simp: Get_cve_def)

lemma fold_Get_entry:
  "fold (Get_entry vulnID cpe) entries advisories =
     advisories @ results_for vulnID \<lparr>Entries = entries\<rparr> cpe"
  by (induction entries arbitrary: advisories)
     (auto simp: Get_entry_def results_for_def fold_Get_cve contains_set)

lemma AdvisorySpecial_eta: "\<lparr>Entries = Entries (adv::AdvisorySpecial)\<rparr> = adv"
  by (cases adv) simp

lemma Get_loop_eq:
  "Get_loop unmarshal raw cpe advisories =
     (case find (\<lambda>kv. Content (snd kv) \<noteq> [] \<and> isl (unmarshal (Content (snd kv)))) raw of
        Some kv \<Rightarrow> Inl (Wrapped ''failed to unmarshal advisory JSON'' (projl (unmarshal (Content (snd kv)))))
      | None \<Rightarrow>
          Inr (advisories @
               concat (map (\<lambda>kv. if Content (snd kv) = [] then []
                                  else results_for (fst kv) (projr (unmarshal (Content (snd kv)))) cpe)
                           raw)))"
proof (induction raw arbitrary: advisories)
  case Nil
  show ?case by simp
next
  case (Cons kv raw)
  obtain vulnID v where kv: "kv = (vulnID, v)" by (cases kv)
  show ?case
  proof (cases "Content v = []")
    case True
    then show ?thesis using Cons[of advisories] kv by (simp split: option.splits)
  next
    case False
    show ?thesis
    proof (cases "unmarshal (Content v)")
      case (Inl err)
      then show ?thesis using False kv by (simp split: option.splits)
    next
      case (Inr adv)
      then show ?thesis
        using False kv Cons[of "fold (Get_entry vulnID cpe) (Entries adv) advisories"]
        by (simp add: fold_Get_entry AdvisorySpecial_eta split: option.splits)
    qed
  qed
qed

text \<open>
  What \<^const>\<open>Get\<close> returns. It fails when the store cannot be iterated or a stored
  content that is not empty cannot be decoded; otherwise it returns, for each stored
  advisory in turn, \<^const>\<open>results_for\<close> its bucket key: one result for each
  vulnerability record of each entry whose platform list holds the queried platform. The
  bucket key is the primary identifier of a result exactly when it starts with
  \<^verbatim>\<open>CVE-\<close>; for every other key the primary identifier is the identifier of
  the record, and the bucket key is the only vendor identifier of the result.
\<close>

lemma Get_results:
  "Get dbc unmarshal db pkgName cpe =
     (case ForEachAdvisory dbc [rootBucket] pkgName db of
        Inl err \<Rightarrow> Inl (Wrapped ''unable to iterate advisories'' err)
      | Inr raw \<Rightarrow>
          (case find (\<lambda>kv. Content (snd kv) \<noteq> [] \<and> isl (unmarshal (Content (snd kv)))) raw of
             Some kv \<Rightarrow>
               Inl (Wrapped ''failed to unmarshal advisory JSON'' (projl (unmarshal (Content (snd kv)))))
           | None \<Rightarrow>
               Inr (concat (map (\<lambda>kv. if Content (snd kv) = [] then []
                                       else results_for (fst kv) (projr (unmarshal (Content (snd kv)))) cpe)
                                raw))))"
  by (simp add: Get_def Get_loop_eq split: sum.splits option.splits)

lemma ex_bulletin_emitted:
  "emitted_for_definition ex_tests ex_bulletin_definition =
     [(\<lparr>packageName = ''libfoo'', vulnerabilityID = ''''\<rparr>,
       \<lparr>Entry = \<lparr>CVEs = [\<lparr>ID = '''', Severity = SeverityHigh\<rparr>], FixedVersion = ''1.2-4'',
                  AffectedCPEList = [''cpe:/o:alt:workstation:10''], Arches = [''x86_64'']\<rparr>\<rparr>),
      (\<lparr>packageName = ''libfoo'', vulnerabilityID = ''BDU:2024-00001''\<rparr>,
       \<lparr>Entry = \<lparr>CVEs = [\<lparr>ID = '''', Severity = SeverityHigh\<rparr>], FixedVersion = ''1.2-4'',
                  AffectedCPEList = [''cpe:/o:alt:workstation:10''], Arches = [''x86_64'']\<rparr>\<rparr>),
      (\<lparr>packageName = ''libfoo'', vulnerabilityID = ''CVE-2024-9999''\<rparr>,
       \<lparr>Entry = \<lparr>CVEs = [\<lparr>ID = '''', Severity = SeverityHigh\<rparr>], FixedVersion = ''1.2-4'',
                  AffectedCPEList = [''cpe:/o:alt:workstation:10''], Arches = [''x86_64'']\<rparr>\<rparr>)]"
  by (simp add: emitted_for_definition_def emitted_for_fact_def vulnerability_records_def
        ex_bulletin_definition_def ex_tests_def pkg_of_def vendorCVE_def sev_High)

lemma ex_bulletin_defs:
  "fst (parseOVAL_definition ex_tests ex_bulletin_definition ([], [])) =
     [(\<lparr>packageName = ''libfoo'', vulnerabilityID = ''''\<rparr>,
       \<lparr>Entry = \<lparr>CVEs = [\<lparr>ID = '''', Severity = SeverityHigh\<rparr>], FixedVersion = ''1.2-4'',
                  AffectedCPEList = [''cpe:/o:alt:workstation:10''], Arches = [''x86_64'']\<rparr>\<rparr>),
      (\<lparr>packageName = ''libfoo'', vulnerabilityID = ''BDU:2024-00001''\<rparr>,
       \<lparr>Entry = \<lparr>CVEs = [\<lparr>ID = '''', Severity = SeverityHigh\<rparr>], FixedVersion = ''1.2-4'',
                  AffectedCPEList = [''cpe:/o:alt:workstation:10''], Arches = [''x86_64'']\<rparr>\<rparr>),
      (\<lparr>packageName = ''libfoo'', vulnerabilityID = ''CVE-2024-9999''\<rparr>,
       \<lparr>Entry = \<lparr>CVEs = [\<lparr>ID = '''', Severity = SeverityHigh\<rparr>], FixedVersion = ''1.2-4'',
                  AffectedCPEList = [''cpe:/o:alt:workstation:10''], Arches = [''x86_64'']\<rparr>\<rparr>)]"
  by (simp add: fst_parseOVAL_definition ex_bulletin_emitted)

text \<open>
  C5, evaluated on the code. The claim says that for a bucket key other than the canonical
  vendor identifier, bulletin identifiers included, the key is the primary identifier of
  the result. For a definition without a vendor reference the builder files one entry
  under the bulletin identifier and one under the CVE identifier, each with the
  identifier of its record cleared because the key names it, and the merger keeps them so.
  Queried, the bucket of the CVE gives its key as the primary identifier, as the claim
  says; the bucket of the bulletin gives an empty primary identifier, with the key as a
  vendor identifier: \<^const>\<open>Get\<close> puts the key back only when it starts with
  \<^verbatim>\<open>CVE-\<close>.
\<close>

theorem Get_bulletin_key_empty_id:
  "map_of (mergeAdvisories [] (fst (parseOVAL_definition ex_tests ex_bulletin_definition ([], []))))
       \<lparr>packageName = ''libfoo'', vulnerabilityID = ''BDU:2024-00001''\<rparr>
     = Some \<lparr>Entries = [\<lparr>CVEs = [\<lparr>ID = '''', Severity = SeverityHigh\<rparr>], FixedVersion = ''1.2-4'',
                         AffectedCPEList = [''cpe:/o:alt:workstation:10''],
                         Arches = [''x86_64'']\<rparr>]\<rparr>
   \<and> map_of (mergeAdvisories [] (fst (parseOVAL_definition ex_tests ex_bulletin_definition ([], []))))
       \<lparr>packageName = ''libfoo'', vulnerabilityID = ''CVE-2024-9999''\<rparr>
     = Some \<lparr>Entries = [\<lparr>CVEs = [\<lparr>ID = '''', Severity = SeverityHigh\<rparr>], FixedVersion = ''1.2-4'',
                         AffectedCPEList = [''cpe:/o:alt:workstation:10''],
                         Arches = [''x86_64'']\<rparr>]\<rparr>
   \<and> ex_unmarshal ''{}''
     = Inr \<lparr>Entries = [\<lparr>CVEs = [\<lparr>ID = '''', Severity = SeverityHigh\<rparr>], FixedVersion = ''1.2-4'',
                        AffectedCPEList = [''cpe:/o:alt:workstation:10''],
                        Arches = [''x86_64'']\<rparr>]\<rparr>
   \<and> Get raw_dbc ex_unmarshal
         [(''BDU:2024-00001'', \<lparr>Content = ''{}''\<rparr>), (''CVE-2024-9999'', \<lparr>Content = ''{}''\<rparr>)]
         ''libfoo'' ''cpe:/o:alt:workstation:10''
     = Inr [\<lparr>VulnerabilityID = '''', VendorIDs = [''BDU:2024-00001''], a_Severity = SeverityHigh,
             a_FixedVersion = ''1.2-4'', a_Arches = [''x86_64'']\<rparr>,
            \<lparr>VulnerabilityID = ''CVE-2024-9999'', VendorIDs = [], a_Severity = SeverityHigh,
             a_FixedVersion = ''1.2-4'', a_Arches = [''x86_64'']\<rparr>]"
  apply (intro conjI)
     apply (simp add: ex_bulletin_defs mergeAdvisories_def mergeAdvisories_step_def)
    apply (simp add: ex_bulletin_defs mergeAdvisories_def mergeAdvisories_step_def)
   apply (simp add: ex_unmarshal_def)
  apply (simp add: Get_def raw_dbc_def ex_unmarshal_def Get_entry_def Get_cve_def)
  done

subsection \<open>The catalog accumulator across runs\<close>

lemma snd_parseOVAL_definition_prefix:
  "prefix (snd st) (snd (parseOVAL_definition tests advisory st))"
  by (simp add: parseOVAL_definition_def snd_fold_parseOVAL_pkg)

lemma snd_fold_parseOVAL_definition_prefix:
  "prefix (snd st) (snd (fold (parseOVAL_definition tests) definitions st))"
proof (induction definitions arbitrary: st)
  case Nil
  show ?case by simp
next
  case (Cons d definitions)
  have "prefix (snd st) (snd (parseOVAL_definition tests d st))"
    by (rule snd_parseOVAL_definition_prefix)
  also have "prefix \<dots> (snd (fold (parseOVAL_definition tests) definitions (parseOVAL_definition tests d st)))"
    by (rule Cons.IH)
  finally show ?case by simp
qed

lemma parseOVAL_prefix: "prefix vcs (snd (parseOVAL dir vcs))"
proof (cases "resolveTests dir")
  case (Inl err)
  then show ?thesis by (simp add: parseOVAL_def)
next
  case (Inr tests)
  show ?thesis
  proof (cases "parseDefinitions dir")
    case (Inl err)
    then show ?thesis using Inr by (simp add: parseOVAL_def)
  next
    case (Inr definitions)
    have "prefix (snd ([] :: (bucket, DefinitionSpecial) gomap, vcs))
            (snd (fold (parseOVAL_definition tests) definitions ([], vcs)))"
      by (rule snd_fold_parseOVAL_definition_prefix)
    then show ?thesis
      using Inr \<open>resolveTests dir = Inr tests\<close>
      by (auto simp: parseOVAL_def split: prod.splits)
  qed
qed

lemma Update_products_prefix: "prefix vcs (snd (Update_products products advisories vcs))"
proof (induction products arbitrary: advisories vcs)
  case Nil
  show ?case by simp
next
  case (Cons f products)
  show ?case
  proof (cases "parseOVAL (snd f) vcs")
    case (Pair r vcs')
    have p: "prefix vcs vcs'" using parseOVAL_prefix[of vcs "snd f"] Pair by simp
    show ?thesis
    proof (cases r)
      case (Inl err)
      then show ?thesis using Pair p by simp
    next
      case (Inr definitions)
      have "prefix vcs' (snd (Update_products products (mergeAdvisories advisories definitions) vcs'))"
        by (rule Cons.IH)
      then show ?thesis
        using Pair p Inr by (auto intro: prefix_order.trans)
    qed
  qed
qed

lemma Update_branches_prefix: "prefix vcs (snd (Update_branches branches advisories vcs))"
proof (induction branches arbitrary: advisories vcs)
  case Nil
  show ?case by simp
next
  case (Cons branch branches)
  show ?case
  proof (cases "getProducts (snd branch)")
    case (Inl err)
    then show ?thesis by simp
  next
    case (Inr products)
    show ?thesis
    proof (cases "Update_products products advisories vcs")
      case (Pair r vcs')
      have p: "prefix vcs vcs'" using Update_products_prefix[of vcs products advisories] Pair by simp
      show ?thesis
      proof (cases r)
        case (Inl err)
        then show ?thesis using Pair p Inr by simp
      next
        case (Inr advisories')
        have "prefix vcs' (snd (Update_branches branches advisories' vcs'))"
          by (rule Cons.IH)
        then show ?thesis
          using Pair p Inr \<open>getProducts (snd branch) = Inr products\<close>
          by (auto intro: prefix_order.trans)
      qed
    qed
  qed
qed

lemma vendorCVEs_putVendorCVEs: "vendorCVEs (snd (putVendorCVEs dbc st)) = vendorCVEs st"
  by (simp add: putVendorCVEs_def split: prod.splits)

lemma vendorCVEs_save: "vendorCVEs (snd (save dbc advisories st)) = vendorCVEs st"
  by (simp add: save_def split: prod.splits option.splits)

text \<open>
  \<^const>\<open>Update\<close> never drops a record from \<open>vendorCVEs\<close>: whatever the
  store and the input, the value it leaves starts with the value it found.
\<close>

lemma Update_keeps_vendorCVEs:
  "prefix (vendorCVEs st) (vendorCVEs (snd (Update dbc root st)))"
proof (cases "getBranches root")
  case (Inl err)
  then show ?thesis by (simp add: Update_def)
next
  case (Inr branches)
  show ?thesis
  proof (cases "Update_branches branches [] (vendorCVEs st)")
    case (Pair r vcs)
    have p: "prefix (vendorCVEs st) vcs"
      using Update_branches_prefix[of "vendorCVEs st" branches "[]"] Pair by simp
    show ?thesis
    proof (cases r)
      case (Inl err)
      then show ?thesis using Inr Pair p by (simp add: Update_def)
    next
      case (Inr advisories)
      have a: "vendorCVEs (snd (putVendorCVEs dbc (st\<lparr>vendorCVEs := vcs\<rparr>))) = vcs"
        by (simp add: vendorCVEs_putVendorCVEs)
      show ?thesis
        using \<open>getBranches root = Inr branches\<close> Pair Inr p a
          vendorCVEs_save[of dbc advisories "snd (putVendorCVEs dbc (st\<lparr>vendorCVEs := vcs\<rparr>))"]
        by (auto simp: Update_def split: prod.splits option.splits)
    qed
  qed
qed

lemma ex_resolve:
  "resolveTests \<lparr>objects_json = Inr [\<lparr>obj_ID = ''o1'', obj_Name = ''libfoo''\<rparr>],
                  states_json = Inr [],
                  tests_json = Inr [\<lparr>test_ID = ''t1'', ObjectRef = ''o1'', StateRef = ''''\<rparr>],
                  definitions_json = Inr [ex_definition [''t1'']]\<rparr>
   = Inr [''t1'' \<mapsto> \<lparr>rt_Name = ''libfoo'', rt_FixedVersion = '''', rt_Arch = ''''\<rparr>]"
  by (simp add: resolveTests_def parseObjects_def parseStates_def parseTests_def
        followTestRefs_def zero_resolvedTest_def)

lemma ex_walk1:
  "walkCriterion (def_Criteria (ex_definition [''t1'']))
     [''t1'' \<mapsto> \<lparr>rt_Name = ''libfoo'', rt_FixedVersion = '''', rt_Arch = ''''\<rparr>]
   = [\<lparr>pkg_Name = ''libfoo'', pkg_FixedVersion = '''', pkg_Arches = []\<rparr>]"
  by (simp add: ex_definition_def pkg_of_def)

lemma ex_catalog: "catalog_records (ex_definition refs) = [ex_record]"
  by (simp add: catalog_records_def ex_definition_def ex_record_def vendorCVE_def sev_High)

lemma ex_parseOVAL:
  "parseOVAL \<lparr>objects_json = Inr [\<lparr>obj_ID = ''o1'', obj_Name = ''libfoo''\<rparr>],
                  states_json = Inr [],
                  tests_json = Inr [\<lparr>test_ID = ''t1'', ObjectRef = ''o1'', StateRef = ''''\<rparr>],
                  definitions_json = Inr [ex_definition [''t1'']]\<rparr> vcs
   = (Inr [(\<lparr>packageName = ''libfoo'', vulnerabilityID = ''ALT-PU-2024-1001''\<rparr>,
         \<lparr>Entry = \<lparr>CVEs = [\<lparr>ID = ''ALT-PU-2024-1001'', Severity = SeverityHigh\<rparr>],
                    FixedVersion = '''',
                    AffectedCPEList = [''cpe:/o:alt:workstation:10''],
                    Arches = []\<rparr>\<rparr>)], vcs @ [ex_record])"
  apply (simp add: parseOVAL_def ex_resolve parseDefinitions_def parseOVAL_definition_def
          ex_unaffected ex_walk1 parseOVAL_pkg_eq ex_vendorID ex_vulnerability_records ex_catalog)
  apply (simp add: ex_definition_def)
  done

text \<open>
  C4, evaluated on the code. The claim says that \<open>vendorCVEs\<close> is empty at the
  start of every run, so that a run persists the records of its own input only. In the
  code the first run over \<^const>\<open>ex_tree\<close> leaves its record in
  \<open>vendorCVEs\<close>, and a second run in the same process, over a feed without
  branches and into an empty store, writes that record again.
\<close>

theorem Update_second_run:
  "Update log_dbc ex_tree \<lparr>vendorCVEs = [], store = []\<rparr>
     = (None, \<lparr>vendorCVEs = [ex_record], store = [(''ALT-PU-2024-1001'', ex_detail)]\<rparr>)
   \<and> Update log_dbc (Inr []) \<lparr>vendorCVEs = [ex_record], store = []\<rparr>
     = (None, \<lparr>vendorCVEs = [ex_record], store = [(''ALT-PU-2024-1001'', ex_detail)]\<rparr>)"
  apply (simp add: Update_def getBranches_def getProducts_def ex_tree_def ex_parseOVAL)
  apply (simp add: putVendorCVEs_def save_def log_dbc_def putVendorVulnerabilityDetail_def
          mergeAdvisories_def mergeAdvisories_step_def ex_record_def ex_detail_def)
  done

end
